theory Spec2Isabelle
  imports Main
begin

section \<open>The media permission tester of \<open>src/app/page.js\<close>\<close>

text \<open>
  The page is one React component, \<open>MediaPermissionTester\<close>, with a camera session, a
  microphone session and a log. Its handlers are embedded as functions on a record of the
  component's state: the \<open>useState\<close> cells and the \<open>useRef\<close> cells are fields, a
  \<open>setX(v)\<close> or \<open>ref.current = v\<close> is a field update, and the updates of one handler are
  applied in program order (no handler reads a \<open>useState\<close> cell after writing it, so the
  value a handler reads is the one of the state it was called in). A handler is a function
  of the state it is called in and of the host's answers, run from its first line to its
  last; \<open>toggleTorch\<close> is given in two halves as well, around its \<open>await\<close>, for the runs
  in which another handler is called while it waits.
\<close>

subsection \<open>Host objects\<close>

text \<open>
  A caught value: the handlers read only \<open>error.message\<close> and \<open>error.name\<close>.
\<close>

record jsError =
  errorMessage :: string
  errorName :: string

text \<open>\<open>error.message || error.name\<close>: the message unless it is the empty string.\<close>

definition reason :: "jsError \<Rightarrow> string" where
  "reason e = (if errorMessage e \<noteq> [] then errorMessage e else errorName e)"

text \<open>
  The result of \<open>track.getCapabilities()\<close>; only the key \<open>torch\<close> is read, and only
  compared with \<open>undefined\<close> (\<open>None\<close> is the absent key).
\<close>

record capabilities =
  torch :: "bool option"

text \<open>
  A media track of the host, with the behaviour the handlers can observe:
  \<^item> \<open>label\<close>, the property \<open>track.label\<close>;
  \<^item> \<open>getCapabilities\<close>: \<open>None\<close> when the track has no such method, otherwise what the
    call returns (\<open>Some None\<close> for \<open>null\<close> or \<open>undefined\<close>); the call is taken to return
    normally, as the host interface specifies;
  \<^item> \<open>applyConstraints\<close>: for the requested torch setting, \<open>None\<close> when the promise
    resolves and \<open>Some e\<close> when it rejects with \<open>e\<close>.
\<close>

record track =
  label :: string
  getCapabilities :: "capabilities option option"
  applyConstraints :: "bool \<Rightarrow> jsError option"

record stream =
  getVideoTracks :: "track list"
  getAudioTracks :: "track list"

text \<open>
  How the host answers the calls of \<open>track.stop()\<close> made by one run of \<open>stopCamera\<close> or
  of \<open>stopMicrophone\<close>. The answers belong to the calls, not to the tracks: the handlers
  stop the track of the track cell a second time, after the \<open>forEach\<close> over the stream,
  and that second call has an answer of its own.
  \<^item> \<open>forEachThrows\<close>: \<open>None\<close> when every call made in the \<open>forEach\<close> returns;
    \<open>Some (k, e)\<close> when the call on the track at index \<open>k\<close> of the array throws \<open>e\<close>
    (the calls before it return, and none is made after it);
  \<^item> \<open>trackRefThrows\<close>: \<open>None\<close> when the call on the track cell (lines 89 and 186)
    returns, \<open>Some e\<close> when it throws \<open>e\<close>.
\<close>

record stopAnswers =
  forEachThrows :: "(nat \<times> jsError) option"
  trackRefThrows :: "jsError option"

text \<open>The answer to the call made in the \<open>forEach\<close> at index \<open>k\<close>.\<close>

fun answerAt :: "(nat \<times> jsError) option \<Rightarrow> nat \<Rightarrow> jsError option" where
  "answerAt None k = None"
| "answerAt (Some (i, e)) k = (if i = k then Some e else None)"

text \<open>The \<open>video\<close> element behind \<open>videoRef\<close>.\<close>

record videoElement =
  srcObject :: "stream option"

text \<open>The two constraint objects passed to \<open>getUserMedia\<close>.\<close>

datatype constraints = VideoFacingEnvironment | AudioTrue

text \<open>The calls made to the host, recorded in the order they are made.\<close>

datatype hostCall =
  CallGetUserMedia constraints
| CallGetCapabilities track
| CallStop track
| CallApplyConstraints track bool

subsection \<open>Component state\<close>

datatype severity = Info | Success | Error

record logEntry =
  message :: string
  logType :: severity

text \<open>
  The first twelve fields are the \<open>useState\<close> and \<open>useRef\<close> cells of the component, under
  their own names, and \<open>logs\<close> is the log. A reference cell holds \<open>None\<close> for \<open>null\<close> and
  for \<open>undefined\<close>. Two fields stand for the host: \<open>clock\<close> gives the results of the
  coming calls of \<open>new Date().toLocaleTimeString()\<close>, the next one at index \<open>0\<close>, and
  \<open>hostCalls\<close> is the trace of the calls made to the media interface.
\<close>

record state =
  cameraActive :: bool
  cameraError :: "string option"
  torchEnabled :: bool
  torchSupported :: bool
  videoRef :: "videoElement option"
  streamRef :: "stream option"
  trackRef :: "track option"
  micActive :: bool
  micError :: "string option"
  micRecording :: bool
  micStreamRef :: "stream option"
  micTrackRef :: "track option"
  logs :: "logEntry list"
  clock :: "nat \<Rightarrow> string"
  hostCalls :: "hostCall list"

text \<open>
  The state after the first render: every cell at its initial value and the \<open>video\<close>
  element mounted (the buttons exist only from then on).
\<close>

definition initialState :: "(nat \<Rightarrow> string) \<Rightarrow> state" where
  "initialState clk =
     \<lparr> cameraActive = False, cameraError = None, torchEnabled = False,
       torchSupported = False, videoRef = Some \<lparr> srcObject = None \<rparr>,
       streamRef = None, trackRef = None,
       micActive = False, micError = None, micRecording = False,
       micStreamRef = None, micTrackRef = None,
       logs = [], clock = clk, hostCalls = [] \<rparr>"

text \<open>
  How a handler body ends: it returns, or it throws a value; either way it leaves a state
  behind (the updates made before a throw stay).
\<close>

datatype completion = Returns state | Throws jsError state

fun after :: "completion \<Rightarrow> state" where
  "after (Returns s) = s"
| "after (Throws e s) = s"

text \<open>\<open>try { body } catch (error) { handler }\<close>\<close>

fun tryCatch :: "completion \<Rightarrow> (jsError \<Rightarrow> state \<Rightarrow> completion) \<Rightarrow> completion" where
  "tryCatch (Returns s) handler = Returns s"
| "tryCatch (Throws e s) handler = handler e s"

text \<open>Truthiness of a reference cell.\<close>

fun truthy :: "'a option \<Rightarrow> bool" where
  "truthy None = False"
| "truthy (Some x) = True"

text \<open>\<open>xs[0]\<close>: \<open>undefined\<close> on the empty array.\<close>

fun first :: "'a list \<Rightarrow> 'a option" where
  "first [] = None"
| "first (x # xs) = Some x"

subsection \<open>The log\<close>

text \<open>
  \<open>addLog\<close> (lines 26-31) reads the time, builds \<open>[timestamp] message\<close> and appends the
  entry; the \<open>console.log\<close> call changes nothing the component can read.
\<close>

definition addLog :: "string \<Rightarrow> severity \<Rightarrow> state \<Rightarrow> state" where
  "addLog msg type s =
     (let timestamp = clock s 0;
          logEntry = ''['' @ timestamp @ ''] '' @ msg
      in s \<lparr> logs := logs s @ [\<lparr> message = logEntry, logType = type \<rparr>],
             clock := (\<lambda>n. clock s (Suc n)) \<rparr>)"

text \<open>\<open>clearLogs\<close> (lines 224-227).\<close>

definition clearLogs :: "state \<Rightarrow> completion" where
  "clearLogs s = Returns (addLog ''Logs cleared'' Info (s \<lparr> logs := [] \<rparr>))"

subsection \<open>The camera session\<close>

text \<open>
  Lines 48-56 of \<open>startCamera\<close>: the torch probe on the track just stored. Nothing is
  written to \<open>torchSupported\<close> unless the capabilities have the key \<open>torch\<close>.
\<close>

definition checkTorchSupport :: "state \<Rightarrow> state" where
  "checkTorchSupport s =
     (case trackRef s of
        None \<Rightarrow> s
      | Some t \<Rightarrow>
          (case getCapabilities t of
             None \<Rightarrow> s
           | Some capabilities \<Rightarrow>
               (let s1 = s \<lparr> hostCalls := hostCalls s @ [CallGetCapabilities t] \<rparr>
                in case capabilities of
                     None \<Rightarrow> addLog ''Camera: Torch is not supported on this device'' Info s1
                   | Some c \<Rightarrow>
                       (case torch c of
                          None \<Rightarrow>
                            addLog ''Camera: Torch is not supported on this device'' Info s1
                        | Some b \<Rightarrow>
                            addLog ''Camera: Torch is supported'' Success
                              (s1 \<lparr> torchSupported := True \<rparr>)))))"

text \<open>
  The \<open>try\<close> block of \<open>startCamera\<close> (lines 36-64). The argument \<open>granted\<close> is how the
  host settles \<open>getUserMedia(constraints)\<close>: \<open>Inl e\<close> rejects with \<open>e\<close>, \<open>Inr stream\<close>
  resolves with the stream.
\<close>

definition startCamera_try :: "jsError + stream \<Rightarrow> state \<Rightarrow> completion" where
  "startCamera_try granted s =
     (let s1 = addLog ''Camera: Requesting permission...'' Info s;
          s2 = s1 \<lparr> cameraError := None \<rparr>;
          s3 = s2 \<lparr> hostCalls := hostCalls s2 @ [CallGetUserMedia VideoFacingEnvironment] \<rparr>
      in case granted of
           Inl e \<Rightarrow> Throws e s3
         | Inr stream \<Rightarrow>
             (let s4 = addLog ''Camera: Permission granted, stream obtained'' Success s3;
                  s5 = s4 \<lparr> streamRef := Some stream \<rparr>;
                  s6 = s5 \<lparr> trackRef := first (getVideoTracks stream) \<rparr>;
                  s7 = checkTorchSupport s6;
                  s8 = (case videoRef s7 of
                          None \<Rightarrow> s7
                        | Some v \<Rightarrow>
                            addLog ''Camera: Video element source set'' Success
                              (s7 \<lparr> videoRef := Some (v \<lparr> srcObject := Some stream \<rparr>) \<rparr>))
              in Returns (s8 \<lparr> cameraActive := True \<rparr>)))"

text \<open>The \<open>catch\<close> block of \<open>startCamera\<close> (lines 65-70).\<close>

definition startCamera_catch :: "jsError \<Rightarrow> state \<Rightarrow> completion" where
  "startCamera_catch e s =
     (let errorMsg = ''Camera: Permission denied or error occurred - '' @ reason e;
          s1 = addLog errorMsg Error s;
          s2 = s1 \<lparr> cameraError := Some errorMsg \<rparr>
      in Returns (s2 \<lparr> cameraActive := False \<rparr>))"

definition startCamera :: "jsError + stream \<Rightarrow> state \<Rightarrow> completion" where
  "startCamera granted s = tryCatch (startCamera_try granted s) startCamera_catch"

text \<open>One call of \<open>track.stop()\<close>, with the host's answer to it.\<close>

definition callStop :: "track \<Rightarrow> jsError option \<Rightarrow> state \<Rightarrow> completion" where
  "callStop t answer s =
     (let s1 = s \<lparr> hostCalls := hostCalls s @ [CallStop t] \<rparr>
      in case answer of None \<Rightarrow> Returns s1 | Some e \<Rightarrow> Throws e s1)"

text \<open>
  The \<open>forEach\<close> of lines 80-83 and of lines 177-180, from index \<open>k\<close> on: each track is
  stopped and the stop is logged, \<open>prefix\<close> being the text before the label. A throw ends
  the loop.
\<close>

fun stopEach ::
  "string \<Rightarrow> track list \<Rightarrow> (nat \<times> jsError) option \<Rightarrow> nat \<Rightarrow> state \<Rightarrow> completion" where
  "stopEach prefix [] throws k s = Returns s"
| "stopEach prefix (t # ts) throws k s =
     (case callStop t (answerAt throws k) s of
        Throws e s1 \<Rightarrow> Throws e s1
      | Returns s1 \<Rightarrow>
          stopEach prefix ts throws (Suc k) (addLog (prefix @ label t @ '')'') Success s1))"

text \<open>
  The \<open>try\<close> block of \<open>stopCamera\<close> (lines 76-106), statement by statement; \<open>answers\<close>
  are the host's answers to the calls of \<open>stop()\<close> of this run.
\<close>

definition stopCamera_streams :: "stopAnswers \<Rightarrow> state \<Rightarrow> completion" where
  "stopCamera_streams answers s =
     (case streamRef s of
        None \<Rightarrow> Returns s
      | Some st \<Rightarrow>
          (case stopEach ''Camera: Video track stopped ('' (getVideoTracks st)
                  (forEachThrows answers) 0 s of
             Throws e s1 \<Rightarrow> Throws e s1
           | Returns s1 \<Rightarrow> Returns (s1 \<lparr> streamRef := None \<rparr>)))"

definition stopCamera_track :: "stopAnswers \<Rightarrow> state \<Rightarrow> completion" where
  "stopCamera_track answers s =
     (case trackRef s of
        None \<Rightarrow> Returns s
      | Some t \<Rightarrow>
          (case callStop t (trackRefThrows answers) s of
             Throws e s1 \<Rightarrow> Throws e s1
           | Returns s1 \<Rightarrow>
               Returns ((addLog ''Camera: Track reference stopped'' Success s1)
                          \<lparr> trackRef := None \<rparr>)))"

definition stopCamera_reset :: "state \<Rightarrow> completion" where
  "stopCamera_reset s =
     (let s1 = (case videoRef s of
                  None \<Rightarrow> s
                | Some v \<Rightarrow>
                    addLog ''Camera: Video element source cleared'' Success
                      (s \<lparr> videoRef := Some (v \<lparr> srcObject := None \<rparr>) \<rparr>));
          s2 = s1 \<lparr> torchEnabled := False \<rparr>;
          s3 = s2 \<lparr> torchSupported := False \<rparr>;
          s4 = s3 \<lparr> cameraActive := False \<rparr>;
          s5 = s4 \<lparr> cameraError := None \<rparr>
      in Returns (addLog ''Camera: Fully released'' Success s5))"

definition stopCamera_try :: "stopAnswers \<Rightarrow> state \<Rightarrow> completion" where
  "stopCamera_try answers s =
     (case stopCamera_streams answers (addLog ''Camera: Stopping camera...'' Info s) of
        Throws e s1 \<Rightarrow> Throws e s1
      | Returns s1 \<Rightarrow>
          (case stopCamera_track answers s1 of
             Throws e s2 \<Rightarrow> Throws e s2
           | Returns s2 \<Rightarrow> stopCamera_reset s2))"

text \<open>The \<open>catch\<close> block of \<open>stopCamera\<close> (lines 107-110).\<close>

definition stopCamera_catch :: "jsError \<Rightarrow> state \<Rightarrow> completion" where
  "stopCamera_catch e s =
     (let errorMsg = ''Camera: Error stopping - '' @ reason e
      in Returns (addLog errorMsg Error s))"

definition stopCamera :: "stopAnswers \<Rightarrow> state \<Rightarrow> completion" where
  "stopCamera answers s = tryCatch (stopCamera_try answers s) stopCamera_catch"

text \<open>
  \<open>toggleTorch\<close> (lines 114-132): the \<open>try\<close> block, then the \<open>catch\<close> block. The
  early return of lines 116-119 is taken when \<open>trackRef.current\<close> is empty or, the track
  being there, when \<open>torchSupported\<close> is false.
\<close>

definition toggleTorch_try :: "state \<Rightarrow> completion" where
  "toggleTorch_try s =
     (case trackRef s of
        None \<Rightarrow> Returns (addLog ''Camera: Torch not available'' Error s)
      | Some t \<Rightarrow>
          if \<not> torchSupported s
          then Returns (addLog ''Camera: Torch not available'' Error s)
          else
            (let newTorchState = \<not> torchEnabled s;
                 s1 = s \<lparr> hostCalls := hostCalls s @ [CallApplyConstraints t newTorchState] \<rparr>
             in case applyConstraints t newTorchState of
                  Some e \<Rightarrow> Throws e s1
                | None \<Rightarrow>
                    (let s2 = s1 \<lparr> torchEnabled := newTorchState \<rparr>
                     in Returns
                          (addLog (''Camera: Torch '' @
                                    (if newTorchState then ''enabled'' else ''disabled''))
                             Success s2))))"

definition toggleTorch_catch :: "jsError \<Rightarrow> state \<Rightarrow> completion" where
  "toggleTorch_catch e s =
     (let errorMsg = ''Camera: Torch toggle error - '' @ reason e
      in Returns (addLog errorMsg Error s))"

definition toggleTorch :: "state \<Rightarrow> completion" where
  "toggleTorch s = tryCatch (toggleTorch_try s) toggleTorch_catch"

text \<open>
  \<open>toggleTorch\<close> in two halves, for the runs in which something happens while it waits.
  The handler is suspended at the \<open>await\<close> of line 122 until the host settles the request,
  and the page stays live meanwhile. \<open>toggleTorch_request\<close> is lines 116-122 up to the
  call: it ends the handler at the early return, or leaves it waiting with the local
  \<open>newTorchState\<close> and the answer the host will give. \<open>toggleTorch_settle\<close> is the rest,
  lines 126-127 or the \<open>catch\<close> block, run in the state the page has by then; it reads no
  cell, only the local.
\<close>

datatype torchWait = TorchFinished completion | TorchWaiting bool "jsError option" state

definition toggleTorch_request :: "state \<Rightarrow> torchWait" where
  "toggleTorch_request s =
     (case trackRef s of
        None \<Rightarrow> TorchFinished (Returns (addLog ''Camera: Torch not available'' Error s))
      | Some t \<Rightarrow>
          if \<not> torchSupported s
          then TorchFinished (Returns (addLog ''Camera: Torch not available'' Error s))
          else
            (let newTorchState = \<not> torchEnabled s;
                 s1 = s \<lparr> hostCalls := hostCalls s @ [CallApplyConstraints t newTorchState] \<rparr>
             in TorchWaiting newTorchState (applyConstraints t newTorchState) s1))"

definition toggleTorch_settle :: "bool \<Rightarrow> jsError option \<Rightarrow> state \<Rightarrow> completion" where
  "toggleTorch_settle newTorchState answer s =
     tryCatch
       (case answer of
          Some e \<Rightarrow> Throws e s
        | None \<Rightarrow>
            (let s2 = s \<lparr> torchEnabled := newTorchState \<rparr>
             in Returns
                  (addLog (''Camera: Torch '' @
                            (if newTorchState then ''enabled'' else ''disabled''))
                     Success s2)))
       toggleTorch_catch"

subsection \<open>The microphone session\<close>

text \<open>
  What reading \<open>.label\<close> of \<open>undefined\<close> throws at line 160. The message text is the
  engine's; the handlers only copy it into the log and the error cell.
\<close>

definition labelOfUndefined :: jsError where
  "labelOfUndefined =
     \<lparr> errorMessage = ''Cannot read properties of undefined (reading 'label')'',
       errorName = ''TypeError'' \<rparr>"

text \<open>
  The \<open>try\<close> block of \<open>startMicrophone\<close> (lines 137-160). The early return of
  lines 141-147 is the first branch; \<open>granted\<close> is read only on the second.
\<close>

definition startMicrophone_try :: "jsError + stream \<Rightarrow> state \<Rightarrow> completion" where
  "startMicrophone_try granted s =
     (let s1 = addLog ''Microphone: Requesting permission...'' Info s;
          s2 = s1 \<lparr> micError := None \<rparr>
      in if cameraActive s2 \<or> truthy (streamRef s2)
         then
           (let msg = ''Microphone: WARNING - Camera is still active. Ensure camera is fully stopped before requesting microphone.'';
                s3 = addLog msg Error s2
            in Returns (s3 \<lparr> micError := Some ''Camera must be stopped first'' \<rparr>))
         else
           (let s3 = addLog ''Microphone: Camera is not active - proceeding with permission request'' Success s2;
                s4 = s3 \<lparr> hostCalls := hostCalls s3 @ [CallGetUserMedia AudioTrue] \<rparr>
            in case granted of
                 Inl e \<Rightarrow> Throws e s4
               | Inr stream \<Rightarrow>
                   (let s5 = addLog ''Microphone: Permission granted, stream obtained'' Success s4;
                        s6 = s5 \<lparr> micStreamRef := Some stream \<rparr>;
                        s7 = s6 \<lparr> micTrackRef := first (getAudioTracks stream) \<rparr>;
                        s8 = s7 \<lparr> micActive := True \<rparr>;
                        s9 = s8 \<lparr> micRecording := True \<rparr>
                    in case micTrackRef s9 of
                         None \<Rightarrow> Throws labelOfUndefined s9
                       | Some t \<Rightarrow>
                           Returns (addLog (''Microphone: Recording started ('' @ label t @ '')'')
                                      Success s9))))"

text \<open>The \<open>catch\<close> block of \<open>startMicrophone\<close> (lines 161-167).\<close>

definition startMicrophone_catch :: "jsError \<Rightarrow> state \<Rightarrow> completion" where
  "startMicrophone_catch e s =
     (let errorMsg = ''Microphone: Permission denied or error - '' @ reason e;
          s1 = addLog errorMsg Error s;
          s2 = s1 \<lparr> micError := Some errorMsg \<rparr>;
          s3 = s2 \<lparr> micActive := False \<rparr>
      in Returns (s3 \<lparr> micRecording := False \<rparr>))"

definition startMicrophone :: "jsError + stream \<Rightarrow> state \<Rightarrow> completion" where
  "startMicrophone granted s = tryCatch (startMicrophone_try granted s) startMicrophone_catch"

text \<open>The \<open>try\<close> block of \<open>stopMicrophone\<close> (lines 173-194), statement by statement.\<close>

definition stopMicrophone_streams :: "stopAnswers \<Rightarrow> state \<Rightarrow> completion" where
  "stopMicrophone_streams answers s =
     (case micStreamRef s of
        None \<Rightarrow> Returns s
      | Some st \<Rightarrow>
          (case stopEach ''Microphone: Audio track stopped ('' (getAudioTracks st)
                  (forEachThrows answers) 0 s of
             Throws e s1 \<Rightarrow> Throws e s1
           | Returns s1 \<Rightarrow> Returns (s1 \<lparr> micStreamRef := None \<rparr>)))"

definition stopMicrophone_track :: "stopAnswers \<Rightarrow> state \<Rightarrow> completion" where
  "stopMicrophone_track answers s =
     (case micTrackRef s of
        None \<Rightarrow> Returns s
      | Some t \<Rightarrow>
          (case callStop t (trackRefThrows answers) s of
             Throws e s1 \<Rightarrow> Throws e s1
           | Returns s1 \<Rightarrow>
               Returns ((addLog ''Microphone: Track reference stopped'' Success s1)
                          \<lparr> micTrackRef := None \<rparr>)))"

definition stopMicrophone_reset :: "state \<Rightarrow> completion" where
  "stopMicrophone_reset s =
     (let s1 = s \<lparr> micRecording := False \<rparr>;
          s2 = s1 \<lparr> micActive := False \<rparr>;
          s3 = s2 \<lparr> micError := None \<rparr>
      in Returns (addLog ''Microphone: Fully released'' Success s3))"

definition stopMicrophone_try :: "stopAnswers \<Rightarrow> state \<Rightarrow> completion" where
  "stopMicrophone_try answers s =
     (case stopMicrophone_streams answers (addLog ''Microphone: Stopping recording...'' Info s) of
        Throws e s1 \<Rightarrow> Throws e s1
      | Returns s1 \<Rightarrow>
          (case stopMicrophone_track answers s1 of
             Throws e s2 \<Rightarrow> Throws e s2
           | Returns s2 \<Rightarrow> stopMicrophone_reset s2))"

text \<open>The \<open>catch\<close> block of \<open>stopMicrophone\<close> (lines 195-198).\<close>

definition stopMicrophone_catch :: "jsError \<Rightarrow> state \<Rightarrow> completion" where
  "stopMicrophone_catch e s =
     (let errorMsg = ''Microphone: Error stopping - '' @ reason e
      in Returns (addLog errorMsg Error s))"

definition stopMicrophone :: "stopAnswers \<Rightarrow> state \<Rightarrow> completion" where
  "stopMicrophone answers s = tryCatch (stopMicrophone_try answers s) stopMicrophone_catch"

subsection \<open>Calls and reachable states\<close>

text \<open>
  One call of a handler run from its first line to its last, with the host's answers: the
  stream or the error where the handler asks for a stream, the answers to \<open>stop()\<close> where
  it releases tracks.
\<close>

datatype call =
  StartCamera "jsError + stream"
| StopCamera stopAnswers
| ToggleTorch
| StartMicrophone "jsError + stream"
| StopMicrophone stopAnswers
| ClearLogs

fun perform :: "call \<Rightarrow> state \<Rightarrow> completion" where
  "perform (StartCamera granted) s = startCamera granted s"
| "perform (StopCamera answers) s = stopCamera answers s"
| "perform ToggleTorch s = toggleTorch s"
| "perform (StartMicrophone granted) s = startMicrophone granted s"
| "perform (StopMicrophone answers) s = stopMicrophone answers s"
| "perform ClearLogs s = clearLogs s"

fun run :: "call list \<Rightarrow> state \<Rightarrow> state" where
  "run [] s = s"
| "run (c # cs) s = run cs (after (perform c s))"

text \<open>
  What the handlers rely on from the host: a stream granted for the video constraints
  carries a video track. Nothing is asked of a stream granted for audio, nor of the
  answers to \<open>stop()\<close>.
\<close>

fun hostContract :: "call \<Rightarrow> bool" where
  "hostContract (StartCamera (Inr stream)) = (getVideoTracks stream \<noteq> [])"
| "hostContract c = True"

text \<open>
  The states the handlers can produce from the first render, called in any order and in
  any state, with any answers of such a host, each call run to its end before the next.
\<close>

inductive reachable :: "state \<Rightarrow> bool" where
  reachable_initial: "reachable (initialState clk)"
| reachable_call: "reachable s \<Longrightarrow> hostContract c \<Longrightarrow> reachable (after (perform c s))"

text \<open>
  A further condition on the host: the call of \<open>stop()\<close> on the track cell returns. The
  handlers make it on a track that the \<open>forEach\<close> has just stopped, and the host interface
  lets \<open>stop()\<close> on a track that has ended do nothing.
\<close>

fun secondStopReturns :: "call \<Rightarrow> bool" where
  "secondStopReturns (StopCamera answers) = (\<not> truthy (trackRefThrows answers))"
| "secondStopReturns (StopMicrophone answers) = (\<not> truthy (trackRefThrows answers))"
| "secondStopReturns c = True"

text \<open>The states reachable with a host that also meets this condition.\<close>

inductive steadilyReachable :: "state \<Rightarrow> bool" where
  steadilyReachable_initial: "steadilyReachable (initialState clk)"
| steadilyReachable_call:
    "steadilyReachable s \<Longrightarrow> hostContract c \<Longrightarrow> secondStopReturns c \<Longrightarrow>
     steadilyReachable (after (perform c s))"



section \<open>Vocabulary of the properties\<close>

subsection \<open>Cells, completions and releases\<close>

text \<open>
  \<open>cells s\<close> keeps the twelve cells of the component and blanks the log, the clock and
  the trace of host calls: two states with the same \<open>cells\<close> differ at most in what was
  logged and asked of the host.
\<close>

definition cells :: "state \<Rightarrow> state" where
  "cells s = s \<lparr> logs := [], clock := (\<lambda>n. []), hostCalls := [] \<rparr>"

text \<open>
Whether a handler body came to its end.
\<close>

fun returns :: "completion \<Rightarrow> bool" where
  "returns (Returns s) = True"
| "returns (Throws e s) = False"

text \<open>
  \<open>tracksReleased\<close>: every call of \<open>stop()\<close> in the \<open>forEach\<close> over the stream held by a
  cell returns (none is made when the cell is empty; a throw announced for an index
  beyond the array never happens). \<open>trackReleased\<close>: the call on the track held by a cell
  returns (none is made when the cell is empty).
\<close>

fun tracksReleased ::
  "(stream \<Rightarrow> track list) \<Rightarrow> (nat \<times> jsError) option \<Rightarrow> stream option \<Rightarrow> bool" where
  "tracksReleased tracksOf throws None = True"
| "tracksReleased tracksOf None (Some st) = True"
| "tracksReleased tracksOf (Some (i, e)) (Some st) = (length (tracksOf st) \<le> i)"

fun trackReleased :: "jsError option \<Rightarrow> track option \<Rightarrow> bool" where
  "trackReleased answer None = True"
| "trackReleased answer (Some t) = (\<not> truthy answer)"

text \<open>
  Every call of \<open>stop()\<close> that \<open>stopCamera\<close>, or \<open>stopMicrophone\<close>, makes in \<open>s\<close> under
  the answers returns.
\<close>

definition videoReleaseSucceeds :: "stopAnswers \<Rightarrow> state \<Rightarrow> bool" where
  "videoReleaseSucceeds answers s =
     (tracksReleased getVideoTracks (forEachThrows answers) (streamRef s)
      \<and> trackReleased (trackRefThrows answers) (trackRef s))"

definition audioReleaseSucceeds :: "stopAnswers \<Rightarrow> state \<Rightarrow> bool" where
  "audioReleaseSucceeds answers s =
     (tracksReleased getAudioTracks (forEachThrows answers) (micStreamRef s)
      \<and> trackReleased (trackRefThrows answers) (micTrackRef s))"

text \<open>
  What the handlers do to the \<open>video\<close> element, what the torch probe finds on a track,
  and whether \<open>toggleTorch\<close> gets its request through in \<open>s\<close>.
\<close>

fun detach :: "videoElement option \<Rightarrow> videoElement option" where
  "detach None = None"
| "detach (Some v) = Some (v \<lparr> srcObject := None \<rparr>)"

fun attach :: "stream \<Rightarrow> videoElement option \<Rightarrow> videoElement option" where
  "attach st None = None"
| "attach st (Some v) = Some (v \<lparr> srcObject := Some st \<rparr>)"

fun reportsTorch :: "track option \<Rightarrow> bool" where
  "reportsTorch None = False"
| "reportsTorch (Some t) =
     (case getCapabilities t of
        None \<Rightarrow> False
      | Some None \<Rightarrow> False
      | Some (Some c) \<Rightarrow> truthy (torch c))"

definition torchGranted :: "state \<Rightarrow> bool" where
  "torchGranted s =
     (case trackRef s of
        None \<Rightarrow> False
      | Some t \<Rightarrow> torchSupported s \<and> \<not> truthy (applyConstraints t (\<not> torchEnabled s)))"

subsection \<open>Sessions and their invariants\<close>

text \<open>
  The state of a session as the specification lists it: active flag, error string, the two
  handles and, for video, the torch state; for audio the recording flag as well.
\<close>

definition videoSession ::
  "state \<Rightarrow> bool \<times> string option \<times> stream option \<times> track option \<times> bool \<times> bool" where
  "videoSession s =
     (cameraActive s, cameraError s, streamRef s, trackRef s, torchEnabled s, torchSupported s)"

definition audioSession ::
  "state \<Rightarrow> bool \<times> string option \<times> bool \<times> stream option \<times> track option" where
  "audioSession s = (micActive s, micError s, micRecording s, micStreamRef s, micTrackRef s)"

text \<open>
A session at rest: inactive, no error, no handle and the torch off.
\<close>

definition videoIdle :: "state \<Rightarrow> bool" where
  "videoIdle s = (videoSession s = (False, None, None, None, False, False))"

definition audioIdle :: "state \<Rightarrow> bool" where
  "audioIdle s = (audioSession s = (False, None, False, None, None))"

text \<open>
  An active session holds a track; and, the stronger statement, it holds a stream and a
  track.
\<close>

definition videoHandles :: "state \<Rightarrow> bool" where
  "videoHandles s = (cameraActive s \<longrightarrow> truthy (trackRef s))"

definition audioHandles :: "state \<Rightarrow> bool" where
  "audioHandles s = (micActive s \<longrightarrow> truthy (micTrackRef s))"

definition videoHandlesBoth :: "state \<Rightarrow> bool" where
  "videoHandlesBoth s = (cameraActive s \<longrightarrow> truthy (streamRef s) \<and> truthy (trackRef s))"

definition audioHandlesBoth :: "state \<Rightarrow> bool" where
  "audioHandlesBoth s = (micActive s \<longrightarrow> truthy (micStreamRef s) \<and> truthy (micTrackRef s))"


text \<open>
  Nothing stands in the way of \<open>startMicrophone\<close>: the camera is neither active nor
  holding a stream.
\<close>

definition audioUnhindered :: "state \<Rightarrow> bool" where
  "audioUnhindered s = (\<not> cameraActive s \<and> \<not> truthy (streamRef s))"

subsection \<open>Sequences of start and stop calls on one session\<close>

text \<open>
  A call on a session, with the host's answers, and the handler it stands for on the video
  and on the audio session.
\<close>

datatype sessionCall = Start "jsError + stream" | Stop stopAnswers

fun videoCall :: "sessionCall \<Rightarrow> call" where
  "videoCall (Start granted) = StartCamera granted"
| "videoCall (Stop answers) = StopCamera answers"

fun audioCall :: "sessionCall \<Rightarrow> call" where
  "audioCall (Start granted) = StartMicrophone granted"
| "audioCall (Stop answers) = StopMicrophone answers"

text \<open>
  The specification's reading of a sequence of calls, word for word: the session is active
  if and only if the most recent start succeeded at the host and no stop occurred after it.
\<close>

fun isStart :: "sessionCall \<Rightarrow> bool" where
  "isStart (Start granted) = True"
| "isStart (Stop answers) = False"

fun isStop :: "sessionCall \<Rightarrow> bool" where
  "isStop (Start granted) = False"
| "isStop (Stop answers) = True"

fun startSucceeded :: "sessionCall \<Rightarrow> bool" where
  "startSucceeded (Start (Inr st)) = True"
| "startSucceeded (Start (Inl e)) = False"
| "startSucceeded (Stop answers) = False"

definition lastStart :: "sessionCall list \<Rightarrow> sessionCall option" where
  "lastStart cs = first (dropWhile (\<lambda>c. \<not> isStart c) (rev cs))"

definition callsSinceLastStart :: "sessionCall list \<Rightarrow> sessionCall list" where
  "callsSinceLastStart cs = rev (takeWhile (\<lambda>c. \<not> isStart c) (rev cs))"

definition activeBySpec :: "sessionCall list \<Rightarrow> bool" where
  "activeBySpec cs =
     (case lastStart cs of
        None \<Rightarrow> False
      | Some c \<Rightarrow> startSucceeded c \<and> \<not> list_ex isStop (callsSinceLastStart cs))"

text \<open>
  Two conditions on the host's answers in a sequence: no call of \<open>stop()\<close> throws, and a
  granted stream has a track of the kind asked for.
\<close>

fun stopsReturn :: "sessionCall \<Rightarrow> bool" where
  "stopsReturn (Start granted) = True"
| "stopsReturn (Stop answers) =
     (\<not> truthy (forEachThrows answers) \<and> \<not> truthy (trackRefThrows answers))"

fun grantHasTrack :: "(stream \<Rightarrow> track list) \<Rightarrow> sessionCall \<Rightarrow> bool" where
  "grantHasTrack tracksOf (Start (Inr st)) = (tracksOf st \<noteq> [])"
| "grantHasTrack tracksOf (Start (Inl e)) = True"
| "grantHasTrack tracksOf (Stop answers) = True"

subsection \<open>Host objects and states used as examples\<close>

text \<open>
  A clock, two host errors (the second with an empty message, so that its name is
  reported), a rear camera without torch, one with a torch that can be switched on but not
  off, a microphone, and the streams that carry them.
\<close>

definition wallClock :: "nat \<Rightarrow> string" where
  "wallClock n = ''10:15:00 AM''"

definition notAllowed :: jsError where
  "notAllowed = \<lparr> errorMessage = ''Permission denied'', errorName = ''NotAllowedError'' \<rparr>"

definition busy :: jsError where
  "busy = \<lparr> errorMessage = [], errorName = ''InvalidStateError'' \<rparr>"

definition rearCamera :: track where
  "rearCamera = \<lparr> label = ''camera 0, facing back'',
                  getCapabilities = Some (Some \<lparr> torch = None \<rparr>),
                  applyConstraints = (\<lambda>b. None) \<rparr>"

definition torchCamera :: track where
  "torchCamera = \<lparr> label = ''camera 0, facing back'',
                   getCapabilities = Some (Some \<lparr> torch = Some True \<rparr>),
                   applyConstraints = (\<lambda>b. if b then None else Some busy) \<rparr>"

definition builtinMic :: track where
  "builtinMic = \<lparr> label = ''Built-in microphone'',
                  getCapabilities = None,
                  applyConstraints = (\<lambda>b. None) \<rparr>"

definition emptyStream :: stream where
  "emptyStream = \<lparr> getVideoTracks = [], getAudioTracks = [] \<rparr>"

definition rearStream :: stream where
  "rearStream = \<lparr> getVideoTracks = [rearCamera], getAudioTracks = [] \<rparr>"

definition torchStream :: stream where
  "torchStream = \<lparr> getVideoTracks = [torchCamera], getAudioTracks = [] \<rparr>"

definition micStream :: stream where
  "micStream = \<lparr> getVideoTracks = [], getAudioTracks = [builtinMic] \<rparr>"

text \<open>
  Three ways the host answers the calls of \<open>stop()\<close> of one run: each returns; the first
  one of the \<open>forEach\<close> throws; those of the \<open>forEach\<close> return and the one on the track
  cell throws.
\<close>

definition allReturn :: stopAnswers where
  "allReturn = \<lparr> forEachThrows = None, trackRefThrows = None \<rparr>"

definition firstStopThrows :: stopAnswers where
  "firstStopThrows = \<lparr> forEachThrows = Some (0, busy), trackRefThrows = None \<rparr>"

definition secondStopThrows :: stopAnswers where
  "secondStopThrows = \<lparr> forEachThrows = None, trackRefThrows = Some busy \<rparr>"

text \<open>
  States of the page: the camera started on each of the two cameras, the torch switched
  on, the torch request made and not yet settled, the microphone started, a camera start
  the host denied, and the camera after a stop whose call on the track cell threw.
\<close>

definition cameraOn :: state where
  "cameraOn = after (startCamera (Inr rearStream) (initialState wallClock))"

definition torchReady :: state where
  "torchReady = after (startCamera (Inr torchStream) (initialState wallClock))"

definition torchOn :: state where
  "torchOn = after (toggleTorch torchReady)"


definition micOn :: state where
  "micOn = after (startMicrophone (Inr micStream) (initialState wallClock))"

definition deniedState :: state where
  "deniedState = after (startCamera (Inl notAllowed) (initialState wallClock))"

definition halfStopped :: state where
  "halfStopped = after (stopCamera secondStopThrows cameraOn)"

section \<open>Lemmas\<close>

subsection \<open>Cells\<close>

lemmas handler_defs =
  startCamera_def startCamera_try_def startCamera_catch_def checkTorchSupport_def
  stopCamera_def stopCamera_try_def stopCamera_streams_def stopCamera_track_def
  stopCamera_reset_def stopCamera_catch_def callStop_def
  toggleTorch_def toggleTorch_try_def toggleTorch_catch_def
  startMicrophone_def startMicrophone_try_def startMicrophone_catch_def
  stopMicrophone_def stopMicrophone_try_def stopMicrophone_streams_def
  stopMicrophone_track_def stopMicrophone_reset_def stopMicrophone_catch_def
  clearLogs_def addLog_def reason_def initialState_def Let_def

lemmas example_defs =
  wallClock_def notAllowed_def busy_def rearCamera_def torchCamera_def
  builtinMic_def emptyStream_def rearStream_def torchStream_def micStream_def
  allReturn_def firstStopThrows_def secondStopThrows_def

lemma truthy_iff: "truthy x \<longleftrightarrow> x \<noteq> None"
  by (cases x) simp_all

lemma truthy_first: "truthy (first ts) = (ts \<noteq> [])"
  by (cases ts) simp_all

lemma cells_addLog [simp]: "cells (addLog m ty s) = cells s"
  by (simp add: cells_def addLog_def)

lemma cells_host [simp]:
  "cells (s \<lparr> hostCalls := h \<rparr>) = cells s"
  "cells (s \<lparr> logs := l \<rparr>) = cells s"
  "cells (s \<lparr> clock := c \<rparr>) = cells s"
  by (simp_all add: cells_def)

lemma cells_update [simp]:
  "cells (s \<lparr> cameraActive := b \<rparr>) = (cells s) \<lparr> cameraActive := b \<rparr>"
  "cells (s \<lparr> cameraError := x \<rparr>) = (cells s) \<lparr> cameraError := x \<rparr>"
  "cells (s \<lparr> torchEnabled := b \<rparr>) = (cells s) \<lparr> torchEnabled := b \<rparr>"
  "cells (s \<lparr> torchSupported := b \<rparr>) = (cells s) \<lparr> torchSupported := b \<rparr>"
  "cells (s \<lparr> videoRef := v \<rparr>) = (cells s) \<lparr> videoRef := v \<rparr>"
  "cells (s \<lparr> streamRef := r \<rparr>) = (cells s) \<lparr> streamRef := r \<rparr>"
  "cells (s \<lparr> trackRef := t \<rparr>) = (cells s) \<lparr> trackRef := t \<rparr>"
  "cells (s \<lparr> micActive := b \<rparr>) = (cells s) \<lparr> micActive := b \<rparr>"
  "cells (s \<lparr> micError := x \<rparr>) = (cells s) \<lparr> micError := x \<rparr>"
  "cells (s \<lparr> micRecording := b \<rparr>) = (cells s) \<lparr> micRecording := b \<rparr>"
  "cells (s \<lparr> micStreamRef := r \<rparr>) = (cells s) \<lparr> micStreamRef := r \<rparr>"
  "cells (s \<lparr> micTrackRef := t \<rparr>) = (cells s) \<lparr> micTrackRef := t \<rparr>"
  by (simp_all add: cells_def)

lemma cells_select [simp]:
  "cameraActive (cells s) = cameraActive s"
  "cameraError (cells s) = cameraError s"
  "torchEnabled (cells s) = torchEnabled s"
  "torchSupported (cells s) = torchSupported s"
  "videoRef (cells s) = videoRef s"
  "streamRef (cells s) = streamRef s"
  "trackRef (cells s) = trackRef s"
  "micActive (cells s) = micActive s"
  "micError (cells s) = micError s"
  "micRecording (cells s) = micRecording s"
  "micStreamRef (cells s) = micStreamRef s"
  "micTrackRef (cells s) = micTrackRef s"
  by (simp_all add: cells_def)

lemma cells_eq_select:
  assumes "cells s' = c"
  shows "cameraActive s' = cameraActive c" and "cameraError s' = cameraError c"
    and "torchEnabled s' = torchEnabled c" and "torchSupported s' = torchSupported c"
    and "videoRef s' = videoRef c" and "streamRef s' = streamRef c"
    and "trackRef s' = trackRef c" and "micActive s' = micActive c"
    and "micError s' = micError c" and "micRecording s' = micRecording c"
    and "micStreamRef s' = micStreamRef c" and "micTrackRef s' = micTrackRef c"
  using assms by auto

lemma addLog_select [simp]:
  "cameraActive (addLog m ty s) = cameraActive s"
  "cameraError (addLog m ty s) = cameraError s"
  "torchEnabled (addLog m ty s) = torchEnabled s"
  "torchSupported (addLog m ty s) = torchSupported s"
  "videoRef (addLog m ty s) = videoRef s"
  "streamRef (addLog m ty s) = streamRef s"
  "trackRef (addLog m ty s) = trackRef s"
  "micActive (addLog m ty s) = micActive s"
  "micError (addLog m ty s) = micError s"
  "micRecording (addLog m ty s) = micRecording s"
  "micStreamRef (addLog m ty s) = micStreamRef s"
  "micTrackRef (addLog m ty s) = micTrackRef s"
  "hostCalls (addLog m ty s) = hostCalls s"
  by (simp_all add: addLog_def)

subsection \<open>Sequencing and the stop loop\<close>

lemma sequence_returns [simp]:
  "returns (case c of Returns s1 \<Rightarrow> f s1 | Throws e s1 \<Rightarrow> Throws e s1) =
     (returns c \<and> returns (f (after c)))"
  by (cases c) simp_all

lemma sequence_after [simp]:
  "after (case c of Returns s1 \<Rightarrow> f s1 | Throws e s1 \<Rightarrow> Throws e s1) =
     (if returns c then after (f (after c)) else after c)"
  by (cases c) simp_all

lemma callStop_returns [simp]: "returns (callStop t answer s) = (\<not> truthy answer)"
  by (cases answer) (simp_all add: callStop_def Let_def)

lemma callStop_after [simp]:
  "after (callStop t answer s) = s \<lparr> hostCalls := hostCalls s @ [CallStop t] \<rparr>"
  by (simp add: callStop_def Let_def split: option.splits)

lemma stopEach_returns:
  "returns (stopEach p ts throws k s) =
     (case throws of None \<Rightarrow> True | Some (i, e) \<Rightarrow> \<not> (k \<le> i \<and> i < k + length ts))"
proof (induction ts arbitrary: k s)
  case Nil
  show ?case by (simp split: option.splits)
next
  case (Cons t ts)
  show ?case
  proof (cases throws)
    case None
    with Cons.IH show ?thesis by simp
  next
    case (Some ie)
    obtain i e where ie: "ie = (i, e)" by (cases ie)
    with Some Cons.IH [of "Suc k"] show ?thesis by auto
  qed
qed

lemma stopEach_released [simp]:
  "returns (stopEach p (tracksOf st) throws 0 s) = tracksReleased tracksOf throws (Some st)"
  by (cases throws) (auto simp add: stopEach_returns)

lemma stopEach_cells [simp]: "cells (after (stopEach p ts throws k s)) = cells s"
  by (induction ts arbitrary: k s) simp_all

subsection \<open>What each handler does to the cells\<close>

lemma stopCamera_streams_returns [simp]:
  "returns (stopCamera_streams answers s) =
     tracksReleased getVideoTracks (forEachThrows answers) (streamRef s)"
  by (cases "streamRef s") (simp_all add: stopCamera_streams_def)

lemma stopCamera_streams_cells [simp]:
  "cells (after (stopCamera_streams answers s)) =
     (if tracksReleased getVideoTracks (forEachThrows answers) (streamRef s)
      then (cells s) \<lparr> streamRef := None \<rparr> else cells s)"
proof (cases "streamRef s")
  case None
  then have "(cells s) \<lparr> streamRef := None \<rparr> = cells s"
    by (intro state.equality) simp_all
  with None show ?thesis by (simp add: stopCamera_streams_def)
next
  case (Some st)
  then show ?thesis by (simp add: stopCamera_streams_def)
qed

lemma stopCamera_streams_select [simp]:
  "trackRef (after (stopCamera_streams answers s)) = trackRef s"
  "videoRef (after (stopCamera_streams answers s)) = videoRef s"
  using cells_eq_select [OF stopCamera_streams_cells [of answers s]]
  by (simp_all split: if_splits)

lemma stopCamera_track_returns [simp]:
  "returns (stopCamera_track answers s) = trackReleased (trackRefThrows answers) (trackRef s)"
  by (cases "trackRef s") (simp_all add: stopCamera_track_def)

lemma stopCamera_track_cells [simp]:
  "cells (after (stopCamera_track answers s)) =
     (if trackReleased (trackRefThrows answers) (trackRef s)
      then (cells s) \<lparr> trackRef := None \<rparr> else cells s)"
proof (cases "trackRef s")
  case None
  then have "(cells s) \<lparr> trackRef := None \<rparr> = cells s"
    by (intro state.equality) simp_all
  with None show ?thesis by (simp add: stopCamera_track_def)
next
  case (Some t)
  then show ?thesis by (simp add: stopCamera_track_def)
qed

lemma stopCamera_track_select [simp]:
  "videoRef (after (stopCamera_track answers s)) = videoRef s"
  using cells_eq_select [OF stopCamera_track_cells [of answers s]]
  by (simp split: if_splits)

lemma stopCamera_reset_cells [simp]:
  "cells (after (stopCamera_reset s)) =
     (cells s) \<lparr> cameraActive := False, cameraError := None, torchEnabled := False,
                 torchSupported := False, videoRef := detach (videoRef s) \<rparr>"
proof (cases "videoRef s")
  case None
  then have "(cells s) \<lparr> videoRef := None \<rparr> = cells s"
    by (intro state.equality) simp_all
  with None show ?thesis
    by (simp add: stopCamera_reset_def)
next
  case (Some v)
  then show ?thesis by (simp add: stopCamera_reset_def)
qed

lemma stopCamera_returns: "stopCamera answers s = Returns (after (stopCamera answers s))"
  by (cases "stopCamera_try answers s") (simp_all add: stopCamera_def stopCamera_catch_def)

lemma stopCamera_cells_try:
  "cells (after (stopCamera answers s)) = cells (after (stopCamera_try answers s))"
  by (cases "stopCamera_try answers s") (simp_all add: stopCamera_def stopCamera_catch_def)

lemma stopCamera_cells:
  "cells (after (stopCamera answers s)) =
     (if tracksReleased getVideoTracks (forEachThrows answers) (streamRef s)
      then if trackReleased (trackRefThrows answers) (trackRef s)
           then (cells s) \<lparr> cameraActive := False, cameraError := None, torchEnabled := False,
                  torchSupported := False, videoRef := detach (videoRef s),
                  streamRef := None, trackRef := None \<rparr>
           else (cells s) \<lparr> streamRef := None \<rparr>
      else cells s)"
  unfolding stopCamera_cells_try stopCamera_try_def
  by simp

lemma stopMicrophone_streams_returns [simp]:
  "returns (stopMicrophone_streams answers s) =
     tracksReleased getAudioTracks (forEachThrows answers) (micStreamRef s)"
  by (cases "micStreamRef s") (simp_all add: stopMicrophone_streams_def)

lemma stopMicrophone_streams_cells [simp]:
  "cells (after (stopMicrophone_streams answers s)) =
     (if tracksReleased getAudioTracks (forEachThrows answers) (micStreamRef s)
      then (cells s) \<lparr> micStreamRef := None \<rparr> else cells s)"
proof (cases "micStreamRef s")
  case None
  then have "(cells s) \<lparr> micStreamRef := None \<rparr> = cells s"
    by (intro state.equality) simp_all
  with None show ?thesis by (simp add: stopMicrophone_streams_def)
next
  case (Some st)
  then show ?thesis by (simp add: stopMicrophone_streams_def)
qed

lemma stopMicrophone_streams_select [simp]:
  "micTrackRef (after (stopMicrophone_streams answers s)) = micTrackRef s"
  using cells_eq_select [OF stopMicrophone_streams_cells [of answers s]]
  by (simp_all split: if_splits)

lemma stopMicrophone_track_returns [simp]:
  "returns (stopMicrophone_track answers s) =
     trackReleased (trackRefThrows answers) (micTrackRef s)"
  by (cases "micTrackRef s") (simp_all add: stopMicrophone_track_def)

lemma stopMicrophone_track_cells [simp]:
  "cells (after (stopMicrophone_track answers s)) =
     (if trackReleased (trackRefThrows answers) (micTrackRef s)
      then (cells s) \<lparr> micTrackRef := None \<rparr> else cells s)"
proof (cases "micTrackRef s")
  case None
  then have "(cells s) \<lparr> micTrackRef := None \<rparr> = cells s"
    by (intro state.equality) simp_all
  with None show ?thesis by (simp add: stopMicrophone_track_def)
next
  case (Some t)
  then show ?thesis by (simp add: stopMicrophone_track_def)
qed

lemma stopMicrophone_reset_cells [simp]:
  "cells (after (stopMicrophone_reset s)) =
     (cells s) \<lparr> micRecording := False, micActive := False, micError := None \<rparr>"
  by (simp add: stopMicrophone_reset_def)

lemma stopMicrophone_returns:
  "stopMicrophone answers s = Returns (after (stopMicrophone answers s))"
  by (cases "stopMicrophone_try answers s")
    (simp_all add: stopMicrophone_def stopMicrophone_catch_def)

lemma stopMicrophone_cells_try:
  "cells (after (stopMicrophone answers s)) = cells (after (stopMicrophone_try answers s))"
  by (cases "stopMicrophone_try answers s")
    (simp_all add: stopMicrophone_def stopMicrophone_catch_def)

lemma stopMicrophone_cells:
  "cells (after (stopMicrophone answers s)) =
     (if tracksReleased getAudioTracks (forEachThrows answers) (micStreamRef s)
      then if trackReleased (trackRefThrows answers) (micTrackRef s)
           then (cells s) \<lparr> micActive := False, micError := None, micRecording := False,
                  micStreamRef := None, micTrackRef := None \<rparr>
           else (cells s) \<lparr> micStreamRef := None \<rparr>
      else cells s)"
  unfolding stopMicrophone_cells_try stopMicrophone_try_def
  by simp

lemma checkTorchSupport_cells [simp]:
  "cells (checkTorchSupport s) =
     (if reportsTorch (trackRef s) then (cells s) \<lparr> torchSupported := True \<rparr> else cells s)"
  by (simp add: checkTorchSupport_def Let_def split: option.splits)

lemma checkTorchSupport_select [simp]:
  "videoRef (checkTorchSupport s) = videoRef s"
  using cells_eq_select [OF checkTorchSupport_cells [of s]]
  by (simp split: if_splits)

lemma startCamera_returns: "startCamera granted s = Returns (after (startCamera granted s))"
  by (cases granted)
    (simp_all add: startCamera_def startCamera_try_def startCamera_catch_def Let_def)

lemma startCamera_rejected_cells:
  "cells (after (startCamera (Inl e) s)) =
     (cells s) \<lparr> cameraError := Some (''Camera: Permission denied or error occurred - '' @ reason e),
                 cameraActive := False \<rparr>"
  by (simp add: startCamera_def startCamera_try_def startCamera_catch_def Let_def)

lemma startCamera_granted_cells:
  "cells (after (startCamera (Inr st) s)) =
     (cells s) \<lparr> cameraError := None, streamRef := Some st,
                 trackRef := first (getVideoTracks st),
                 torchSupported := (torchSupported s \<or> reportsTorch (first (getVideoTracks st))),
                 videoRef := attach st (videoRef s), cameraActive := True \<rparr>"
  by (cases "videoRef s"; intro state.equality)
     (simp_all add: startCamera_def startCamera_try_def Let_def)

lemma toggleTorch_returns: "toggleTorch s = Returns (after (toggleTorch s))"
  by (cases "toggleTorch_try s") (simp_all add: toggleTorch_def toggleTorch_catch_def)

lemma toggleTorch_cells:
  "cells (after (toggleTorch s)) =
     (if torchGranted s then (cells s) \<lparr> torchEnabled := \<not> torchEnabled s \<rparr> else cells s)"
  by (simp add: toggleTorch_def toggleTorch_try_def toggleTorch_catch_def torchGranted_def Let_def
      split: option.splits)

lemma startMicrophone_returns:
  "startMicrophone granted s = Returns (after (startMicrophone granted s))"
  by (cases granted)
    (simp_all add: startMicrophone_def startMicrophone_try_def startMicrophone_catch_def Let_def
      split: option.splits)

lemma startMicrophone_refused_cells:
  assumes "cameraActive s \<or> truthy (streamRef s)"
  shows "cells (after (startMicrophone granted s)) =
           (cells s) \<lparr> micError := Some ''Camera must be stopped first'' \<rparr>"
  using assms by (simp add: startMicrophone_def startMicrophone_try_def Let_def)

lemma startMicrophone_rejected_cells:
  assumes "\<not> (cameraActive s \<or> truthy (streamRef s))"
  shows "cells (after (startMicrophone (Inl e) s)) =
           (cells s) \<lparr> micError := Some (''Microphone: Permission denied or error - '' @ reason e),
                       micActive := False, micRecording := False \<rparr>"
  using assms
  by (simp add: startMicrophone_def startMicrophone_try_def startMicrophone_catch_def Let_def)

lemma startMicrophone_granted_cells:
  assumes "\<not> (cameraActive s \<or> truthy (streamRef s))"
  shows "cells (after (startMicrophone (Inr st) s)) =
           (case first (getAudioTracks st) of
              None \<Rightarrow>
                (cells s) \<lparr> micError := Some (''Microphone: Permission denied or error - '' @
                                               reason labelOfUndefined),
                            micStreamRef := Some st, micTrackRef := None,
                            micActive := False, micRecording := False \<rparr>
            | Some t \<Rightarrow>
                (cells s) \<lparr> micError := None, micStreamRef := Some st, micTrackRef := Some t,
                            micActive := True, micRecording := True \<rparr>)"
  using assms
  by (simp add: startMicrophone_def startMicrophone_try_def startMicrophone_catch_def Let_def
      split: option.splits)

lemma clearLogs_cells: "cells (after (clearLogs s)) = cells s"
  by (simp add: clearLogs_def)

text \<open>
  Run without a pause between its halves, \<open>toggleTorch\<close> in two halves is \<open>toggleTorch\<close>.
\<close>

lemma toggleTorch_halves:
  "toggleTorch s =
     (case toggleTorch_request s of
        TorchFinished c \<Rightarrow> c
      | TorchWaiting newTorchState answer s1 \<Rightarrow> toggleTorch_settle newTorchState answer s1)"
  by (simp add: toggleTorch_def toggleTorch_try_def toggleTorch_request_def
      toggleTorch_settle_def Let_def split: option.splits)


subsection \<open>The handles of a session\<close>

lemma videoHandles_cells: "videoHandles (cells s) = videoHandles s"
  by (simp add: videoHandles_def)

lemma audioHandles_cells: "audioHandles (cells s) = audioHandles s"
  by (simp add: audioHandles_def)

lemma videoHandlesBoth_cells: "videoHandlesBoth (cells s) = videoHandlesBoth s"
  by (simp add: videoHandlesBoth_def)

lemma audioHandlesBoth_cells: "audioHandlesBoth (cells s) = audioHandlesBoth s"
  by (simp add: audioHandlesBoth_def)

lemma tracksReleased_quiet: "\<not> truthy throws \<Longrightarrow> tracksReleased tracksOf throws r"
  by (cases throws; cases r) simp_all

lemma trackReleased_quiet: "\<not> truthy answer \<Longrightarrow> trackReleased answer r"
  by (cases r) simp_all

lemma videoHandles_perform:
  assumes "videoHandles s" and "hostContract c"
  shows "videoHandles (after (perform c s))"
proof -
  have "videoHandles (cells (after (perform c s)))"
  proof (cases c)
    case (StartCamera granted)
    show ?thesis
    proof (cases granted)
      case (Inl e)
      with StartCamera assms show ?thesis
        by (simp add: startCamera_rejected_cells videoHandles_def)
    next
      case (Inr st)
      with StartCamera assms show ?thesis
        by (simp add: startCamera_granted_cells videoHandles_def truthy_first)
    qed
  next
    case (StopCamera answers)
    with assms show ?thesis
      by (simp add: stopCamera_cells videoHandles_def)
  next
    case ToggleTorch
    with assms show ?thesis
      by (simp add: toggleTorch_cells videoHandles_def)
  next
    case (StartMicrophone granted)
    show ?thesis
    proof (cases "cameraActive s \<or> truthy (streamRef s)")
      case True
      with StartMicrophone assms show ?thesis
        by (simp add: startMicrophone_refused_cells videoHandles_def)
    next
      case False
      with StartMicrophone assms show ?thesis
        by (cases granted)
          (simp_all add: startMicrophone_rejected_cells startMicrophone_granted_cells
            videoHandles_def split: option.splits)
    qed
  next
    case (StopMicrophone answers)
    with assms show ?thesis
      by (simp add: stopMicrophone_cells videoHandles_def)
  next
    case ClearLogs
    with assms show ?thesis
      by (simp add: clearLogs_cells videoHandles_cells)
  qed
  then show ?thesis by (simp only: videoHandles_cells)
qed

lemma audioHandles_perform:
  assumes "audioHandles s"
  shows "audioHandles (after (perform c s))"
proof -
  have "audioHandles (cells (after (perform c s)))"
  proof (cases c)
    case (StartCamera granted)
    with assms show ?thesis
      by (cases granted)
        (simp_all add: startCamera_rejected_cells startCamera_granted_cells audioHandles_def)
  next
    case (StopCamera answers)
    with assms show ?thesis
      by (simp add: stopCamera_cells audioHandles_def)
  next
    case ToggleTorch
    with assms show ?thesis
      by (simp add: toggleTorch_cells audioHandles_def)
  next
    case (StartMicrophone granted)
    show ?thesis
    proof (cases "cameraActive s \<or> truthy (streamRef s)")
      case True
      with StartMicrophone assms show ?thesis
        by (simp add: startMicrophone_refused_cells audioHandles_def)
    next
      case False
      with StartMicrophone assms show ?thesis
        by (cases granted)
          (simp_all add: startMicrophone_rejected_cells startMicrophone_granted_cells
            audioHandles_def split: option.splits)
    qed
  next
    case (StopMicrophone answers)
    with assms show ?thesis
      by (simp add: stopMicrophone_cells audioHandles_def)
  next
    case ClearLogs
    with assms show ?thesis
      by (simp add: clearLogs_cells audioHandles_cells)
  qed
  then show ?thesis by (simp only: audioHandles_cells)
qed

lemma reachable_handles:
  assumes "reachable s"
  shows "videoHandles s \<and> audioHandles s"
  using assms
proof (induction rule: reachable.induct)
  case (reachable_initial clk)
  show ?case by (simp add: initialState_def videoHandles_def audioHandles_def)
next
  case (reachable_call s c)
  then show ?case by (simp add: videoHandles_perform audioHandles_perform)
qed

lemma videoHandlesBoth_perform:
  assumes "videoHandlesBoth s" and "hostContract c" and "secondStopReturns c"
  shows "videoHandlesBoth (after (perform c s))"
proof -
  have "videoHandlesBoth (cells (after (perform c s)))"
  proof (cases c)
    case (StartCamera granted)
    show ?thesis
    proof (cases granted)
      case (Inl e)
      with StartCamera assms show ?thesis
        by (simp add: startCamera_rejected_cells videoHandlesBoth_def)
    next
      case (Inr st)
      with StartCamera assms show ?thesis
        by (simp add: startCamera_granted_cells videoHandlesBoth_def truthy_first)
    qed
  next
    case (StopCamera answers)
    with assms show ?thesis
      by (simp add: stopCamera_cells videoHandlesBoth_def trackReleased_quiet)
  next
    case ToggleTorch
    with assms show ?thesis
      by (simp add: toggleTorch_cells videoHandlesBoth_def)
  next
    case (StartMicrophone granted)
    show ?thesis
    proof (cases "cameraActive s \<or> truthy (streamRef s)")
      case True
      with StartMicrophone assms show ?thesis
        by (simp add: startMicrophone_refused_cells videoHandlesBoth_def)
    next
      case False
      with StartMicrophone assms show ?thesis
        by (cases granted)
          (simp_all add: startMicrophone_rejected_cells startMicrophone_granted_cells
            videoHandlesBoth_def split: option.splits)
    qed
  next
    case (StopMicrophone answers)
    with assms show ?thesis
      by (simp add: stopMicrophone_cells videoHandlesBoth_def)
  next
    case ClearLogs
    with assms show ?thesis
      by (simp add: clearLogs_cells videoHandlesBoth_cells)
  qed
  then show ?thesis by (simp only: videoHandlesBoth_cells)
qed

lemma audioHandlesBoth_perform:
  assumes "audioHandlesBoth s" and "secondStopReturns c"
  shows "audioHandlesBoth (after (perform c s))"
proof -
  have "audioHandlesBoth (cells (after (perform c s)))"
  proof (cases c)
    case (StartCamera granted)
    with assms show ?thesis
      by (cases granted)
        (simp_all add: startCamera_rejected_cells startCamera_granted_cells audioHandlesBoth_def)
  next
    case (StopCamera answers)
    with assms show ?thesis
      by (simp add: stopCamera_cells audioHandlesBoth_def)
  next
    case ToggleTorch
    with assms show ?thesis
      by (simp add: toggleTorch_cells audioHandlesBoth_def)
  next
    case (StartMicrophone granted)
    show ?thesis
    proof (cases "cameraActive s \<or> truthy (streamRef s)")
      case True
      with StartMicrophone assms show ?thesis
        by (simp add: startMicrophone_refused_cells audioHandlesBoth_def)
    next
      case False
      with StartMicrophone assms show ?thesis
        by (cases granted)
          (simp_all add: startMicrophone_rejected_cells startMicrophone_granted_cells
            audioHandlesBoth_def split: option.splits)
    qed
  next
    case (StopMicrophone answers)
    with assms show ?thesis
      by (simp add: stopMicrophone_cells audioHandlesBoth_def trackReleased_quiet)
  next
    case ClearLogs
    with assms show ?thesis
      by (simp add: clearLogs_cells audioHandlesBoth_cells)
  qed
  then show ?thesis by (simp only: audioHandlesBoth_cells)
qed

lemma steadilyReachable_handles:
  assumes "steadilyReachable s"
  shows "videoHandlesBoth s \<and> audioHandlesBoth s"
  using assms
proof (induction rule: steadilyReachable.induct)
  case (steadilyReachable_initial clk)
  show ?case by (simp add: initialState_def videoHandlesBoth_def audioHandlesBoth_def)
next
  case (steadilyReachable_call s c)
  then show ?case by (simp add: videoHandlesBoth_perform audioHandlesBoth_perform)
qed

text \<open>
  Why \<open>reachable\<close> asks the host for a video track: on a granted stream without one,
  \<open>startCamera\<close> marks the session active with an empty track cell.
\<close>

lemma startCamera_without_video_track:
  "cameraActive (after (startCamera (Inr emptyStream) (initialState wallClock)))
   \<and> trackRef (after (startCamera (Inr emptyStream) (initialState wallClock))) = None"
  using cells_eq_select [OF startCamera_granted_cells [of emptyStream "initialState wallClock"]]
  by (simp add: emptyStream_def)

subsection \<open>Sessions, torch and call sequences\<close>

lemma videoSession_cells: "videoSession (cells s) = videoSession s"
  by (simp add: videoSession_def)

lemma audioSession_cells: "audioSession (cells s) = audioSession s"
  by (simp add: audioSession_def)



lemma run_snoc: "run (cs @ [c]) s = after (perform c (run cs s))"
  by (induction cs arbitrary: s) simp_all

lemma activeBySpec_snoc: "activeBySpec (cs @ [c]) = startSucceeded c"
  by (cases c) (simp_all add: activeBySpec_def lastStart_def callsSinceLastStart_def
      split: option.splits)

lemma videoCall_active:
  assumes "stopsReturn c"
  shows "cameraActive (after (perform (videoCall c) s)) = startSucceeded c"
proof (cases c)
  case (Start granted)
  then show ?thesis
    using cells_eq_select(1) [OF startCamera_rejected_cells [of _ s]]
      cells_eq_select(1) [OF startCamera_granted_cells [of _ s]]
    by (cases granted) simp_all
next
  case (Stop answers)
  with assms cells_eq_select(1) [OF stopCamera_cells [of answers s]] show ?thesis
    by (simp add: tracksReleased_quiet trackReleased_quiet)
qed

lemma audioUnhindered_cells: "audioUnhindered (cells s) = audioUnhindered s"
  by (simp add: audioUnhindered_def)

lemma audioCall_unhindered:
  assumes "audioUnhindered s"
  shows "audioUnhindered (after (perform (audioCall c) s))"
proof -
  from assms have free: "\<not> (cameraActive s \<or> truthy (streamRef s))"
    by (simp add: audioUnhindered_def)
  have "audioUnhindered (cells (after (perform (audioCall c) s)))"
  proof (cases c)
    case (Start granted)
    show ?thesis
    proof (cases granted)
      case (Inl e)
      with Start assms show ?thesis
        by (simp add: startMicrophone_rejected_cells [OF free] audioUnhindered_def)
    next
      case (Inr st)
      with Start assms show ?thesis
        by (cases "first (getAudioTracks st)")
          (simp_all add: startMicrophone_granted_cells [OF free] audioUnhindered_def)
    qed
  next
    case (Stop answers)
    with assms show ?thesis
      by (simp add: stopMicrophone_cells audioUnhindered_def)
  qed
  then show ?thesis by (simp only: audioUnhindered_cells)
qed

lemma audioCall_active:
  assumes "audioUnhindered s" and "grantHasTrack getAudioTracks c" and "stopsReturn c"
  shows "micActive (after (perform (audioCall c) s)) = startSucceeded c"
proof -
  from assms(1) have free: "\<not> (cameraActive s \<or> truthy (streamRef s))"
    by (simp add: audioUnhindered_def)
  show ?thesis
  proof (cases c)
    case (Start granted)
    show ?thesis
    proof (cases granted)
      case (Inl e)
      with Start cells_eq_select(8) [OF startMicrophone_rejected_cells [OF free, of e]]
      show ?thesis by simp
    next
      case (Inr st)
      with Start assms(2) obtain t where "first (getAudioTracks st) = Some t"
        by (cases "getAudioTracks st") simp_all
      with Start Inr cells_eq_select(8) [OF startMicrophone_granted_cells [OF free, of st]]
      show ?thesis by simp
    qed
  next
    case (Stop answers)
    with assms cells_eq_select(8) [OF stopMicrophone_cells [of answers s]] show ?thesis
      by (simp add: tracksReleased_quiet trackReleased_quiet)
  qed
qed

lemma audioCalls_unhindered:
  assumes "audioUnhindered s"
  shows "audioUnhindered (run (map audioCall cs) s)"
  using assms
proof (induction cs arbitrary: s)
  case Nil
  then show ?case by simp
next
  case (Cons c cs)
  then show ?case by (simp add: audioCall_unhindered)
qed

section \<open>The claims\<close>

subsection \<open>C1: the microphone refuses while the camera is held\<close>

text \<open>
  C1. In every state in which the video session is active or \<open>streamRef\<close> still holds a
  stream, \<open>startMicrophone\<close> returns, sets \<open>micError\<close> to
  \<open>Camera must be stopped first\<close>, appends the request entry and then an entry of
  severity error to the log, and makes no call to the host: the trace of host calls is
  unchanged, whatever the host would have answered to \<open>getUserMedia\<close>.
\<close>

theorem startMicrophone_refuses_while_camera_held:
  assumes "cameraActive s \<or> streamRef s \<noteq> None"
  shows "startMicrophone granted s = Returns (after (startMicrophone granted s))
       \<and> micError (after (startMicrophone granted s)) = Some ''Camera must be stopped first''
       \<and> logs (after (startMicrophone granted s)) =
           logs s @
           [\<lparr> message = ''['' @ clock s 0 @ ''] Microphone: Requesting permission...'',
               logType = Info \<rparr>,
            \<lparr> message = ''['' @ clock s 1 @ ''] Microphone: WARNING - Camera is still active. Ensure camera is fully stopped before requesting microphone.'',
               logType = Error \<rparr>]
       \<and> hostCalls (after (startMicrophone granted s)) = hostCalls s"
proof -
  from assms have "cameraActive s \<or> truthy (streamRef s)"
    by (simp add: truthy_iff)
  then show ?thesis
    by (simp add: startMicrophone_def startMicrophone_try_def addLog_def Let_def)
qed

text \<open>
C1, witness: the microphone is started while the rear camera is on.
\<close>

theorem startMicrophone_refuses_while_camera_held_witness:
  "cameraActive cameraOn
   \<and> startMicrophone (Inr micStream) cameraOn =
       Returns (after (startMicrophone (Inr micStream) cameraOn))
   \<and> micError (after (startMicrophone (Inr micStream) cameraOn)) =
       Some ''Camera must be stopped first''
   \<and> hostCalls (after (startMicrophone (Inr micStream) cameraOn)) = hostCalls cameraOn"
proof -
  have active: "cameraActive cameraOn"
    by (simp add: cameraOn_def handler_defs example_defs)
  then have "cameraActive cameraOn \<or> streamRef cameraOn \<noteq> None" by simp
  from startMicrophone_refuses_while_camera_held [OF this, of "Inr micStream"] active
  show ?thesis by simp
qed

subsection \<open>C2: handles of an active session, and after stop\<close>

text \<open>
  C2, counterexample. The claim lets an active session hold both references in every
  reachable state, and lets both be null after any call to stop, also when releasing a
  track threw. With the camera on, a \<open>stop()\<close> that throws in the \<open>forEach\<close> (line 81)
  leaves the \<open>try\<close> block before either assignment of \<open>null\<close>: both references stay. A
  \<open>stop()\<close> that throws on the track cell (line 89) comes after line 84: the state it
  leaves is reachable, the session is still active, \<open>streamRef\<close> is null and \<open>trackRef\<close>
  is not.
\<close>

theorem stopCamera_keeps_handles_when_release_throws:
  "cameraActive cameraOn
   \<and> streamRef (after (stopCamera firstStopThrows cameraOn)) \<noteq> None
   \<and> trackRef (after (stopCamera firstStopThrows cameraOn)) \<noteq> None
   \<and> reachable halfStopped \<and> cameraActive halfStopped
   \<and> streamRef halfStopped = None \<and> trackRef halfStopped \<noteq> None"
proof -
  have r1: "reachable cameraOn"
    unfolding cameraOn_def
    using reachable_call [OF reachable_initial, of "StartCamera (Inr rearStream)" wallClock]
    by (simp add: rearStream_def)
  have "reachable halfStopped"
    unfolding halfStopped_def
    using reachable_call [OF r1, of "StopCamera secondStopThrows"] by simp
  moreover have "cameraActive cameraOn
   \<and> streamRef (after (stopCamera firstStopThrows cameraOn)) \<noteq> None
   \<and> trackRef (after (stopCamera firstStopThrows cameraOn)) \<noteq> None
   \<and> cameraActive halfStopped
   \<and> streamRef halfStopped = None \<and> trackRef halfStopped \<noteq> None"
    by (simp add: halfStopped_def cameraOn_def handler_defs example_defs)
  ultimately show ?thesis by simp
qed

text \<open>
  C2, as amended. In every reachable state, the host granting for video only streams that
  carry a video track, an active session holds a track, for video and for audio; it holds
  a stream as well in every state reached with a host whose \<open>stop()\<close> on the track cell
  (lines 89 and 186, a second call on a track already stopped) returns. In every state,
  after a call to stop in which every release succeeds both references are null; when a
  release throws in the \<open>forEach\<close>, both references and the active flag are as they were
  before the call; when the releases of the \<open>forEach\<close> succeed and the one on the track
  cell throws, the stream reference is null, and the track reference and the active flag
  are as they were.
\<close>

theorem handles_held_while_active:
  "(reachable s \<longrightarrow>
      (cameraActive s \<longrightarrow> trackRef s \<noteq> None) \<and> (micActive s \<longrightarrow> micTrackRef s \<noteq> None))
   \<and> (steadilyReachable s \<longrightarrow>
      (cameraActive s \<longrightarrow> streamRef s \<noteq> None \<and> trackRef s \<noteq> None)
      \<and> (micActive s \<longrightarrow> micStreamRef s \<noteq> None \<and> micTrackRef s \<noteq> None))
   \<and> (videoReleaseSucceeds answers s \<longrightarrow>
      streamRef (after (stopCamera answers s)) = None
      \<and> trackRef (after (stopCamera answers s)) = None)
   \<and> (audioReleaseSucceeds answers s \<longrightarrow>
      micStreamRef (after (stopMicrophone answers s)) = None
      \<and> micTrackRef (after (stopMicrophone answers s)) = None)
   \<and> (\<not> tracksReleased getVideoTracks (forEachThrows answers) (streamRef s) \<longrightarrow>
      streamRef (after (stopCamera answers s)) = streamRef s
      \<and> trackRef (after (stopCamera answers s)) = trackRef s
      \<and> cameraActive (after (stopCamera answers s)) = cameraActive s)
   \<and> (tracksReleased getVideoTracks (forEachThrows answers) (streamRef s)
       \<and> \<not> trackReleased (trackRefThrows answers) (trackRef s) \<longrightarrow>
      streamRef (after (stopCamera answers s)) = None
      \<and> trackRef (after (stopCamera answers s)) = trackRef s
      \<and> cameraActive (after (stopCamera answers s)) = cameraActive s)
   \<and> (\<not> tracksReleased getAudioTracks (forEachThrows answers) (micStreamRef s) \<longrightarrow>
      micStreamRef (after (stopMicrophone answers s)) = micStreamRef s
      \<and> micTrackRef (after (stopMicrophone answers s)) = micTrackRef s
      \<and> micActive (after (stopMicrophone answers s)) = micActive s)
   \<and> (tracksReleased getAudioTracks (forEachThrows answers) (micStreamRef s)
       \<and> \<not> trackReleased (trackRefThrows answers) (micTrackRef s) \<longrightarrow>
      micStreamRef (after (stopMicrophone answers s)) = None
      \<and> micTrackRef (after (stopMicrophone answers s)) = micTrackRef s
      \<and> micActive (after (stopMicrophone answers s)) = micActive s)"
proof -
  note v = cells_eq_select [OF stopCamera_cells [of answers s]]
  note a = cells_eq_select [OF stopMicrophone_cells [of answers s]]
  have held: "(cameraActive s \<longrightarrow> trackRef s \<noteq> None) \<and> (micActive s \<longrightarrow> micTrackRef s \<noteq> None)"
    if "reachable s"
    using reachable_handles [OF that]
    by (simp add: videoHandles_def audioHandles_def truthy_iff)
  have both: "(cameraActive s \<longrightarrow> streamRef s \<noteq> None \<and> trackRef s \<noteq> None)
      \<and> (micActive s \<longrightarrow> micStreamRef s \<noteq> None \<and> micTrackRef s \<noteq> None)"
    if "steadilyReachable s"
    using steadilyReachable_handles [OF that]
    by (simp add: videoHandlesBoth_def audioHandlesBoth_def truthy_iff)
  have video_ok: "streamRef (after (stopCamera answers s)) = None
      \<and> trackRef (after (stopCamera answers s)) = None"
    if "videoReleaseSucceeds answers s"
    using that v by (simp add: videoReleaseSucceeds_def)
  have audio_ok: "micStreamRef (after (stopMicrophone answers s)) = None
      \<and> micTrackRef (after (stopMicrophone answers s)) = None"
    if "audioReleaseSucceeds answers s"
    using that a by (simp add: audioReleaseSucceeds_def)
  have video_loop: "streamRef (after (stopCamera answers s)) = streamRef s
      \<and> trackRef (after (stopCamera answers s)) = trackRef s
      \<and> cameraActive (after (stopCamera answers s)) = cameraActive s"
    if "\<not> tracksReleased getVideoTracks (forEachThrows answers) (streamRef s)"
    using that v by simp
  have video_cell: "streamRef (after (stopCamera answers s)) = None
      \<and> trackRef (after (stopCamera answers s)) = trackRef s
      \<and> cameraActive (after (stopCamera answers s)) = cameraActive s"
    if "tracksReleased getVideoTracks (forEachThrows answers) (streamRef s)"
      and "\<not> trackReleased (trackRefThrows answers) (trackRef s)"
    using that v by simp
  have audio_loop: "micStreamRef (after (stopMicrophone answers s)) = micStreamRef s
      \<and> micTrackRef (after (stopMicrophone answers s)) = micTrackRef s
      \<and> micActive (after (stopMicrophone answers s)) = micActive s"
    if "\<not> tracksReleased getAudioTracks (forEachThrows answers) (micStreamRef s)"
    using that a by simp
  have audio_cell: "micStreamRef (after (stopMicrophone answers s)) = None
      \<and> micTrackRef (after (stopMicrophone answers s)) = micTrackRef s
      \<and> micActive (after (stopMicrophone answers s)) = micActive s"
    if "tracksReleased getAudioTracks (forEachThrows answers) (micStreamRef s)"
      and "\<not> trackReleased (trackRefThrows answers) (micTrackRef s)"
    using that a by simp
  from held both video_ok audio_ok video_loop video_cell audio_loop audio_cell
  show ?thesis by blast
qed

text \<open>
  C2, witness: the camera on and the microphone on, each stopped with each of the three
  answers of the host.
\<close>

theorem handles_held_while_active_witness:
  "reachable cameraOn \<and> steadilyReachable cameraOn \<and> cameraActive cameraOn
   \<and> streamRef cameraOn \<noteq> None \<and> trackRef cameraOn \<noteq> None
   \<and> videoReleaseSucceeds allReturn cameraOn
   \<and> streamRef (after (stopCamera allReturn cameraOn)) = None
   \<and> trackRef (after (stopCamera allReturn cameraOn)) = None
   \<and> \<not> tracksReleased getVideoTracks (forEachThrows firstStopThrows) (streamRef cameraOn)
   \<and> streamRef (after (stopCamera firstStopThrows cameraOn)) = streamRef cameraOn
   \<and> cameraActive (after (stopCamera firstStopThrows cameraOn))
   \<and> \<not> trackReleased (trackRefThrows secondStopThrows) (trackRef cameraOn)
   \<and> streamRef (after (stopCamera secondStopThrows cameraOn)) = None
   \<and> trackRef (after (stopCamera secondStopThrows cameraOn)) = trackRef cameraOn
   \<and> cameraActive (after (stopCamera secondStopThrows cameraOn))
   \<and> reachable micOn \<and> micActive micOn \<and> micTrackRef micOn \<noteq> None
   \<and> audioReleaseSucceeds allReturn micOn
   \<and> micStreamRef (after (stopMicrophone allReturn micOn)) = None
   \<and> micStreamRef (after (stopMicrophone firstStopThrows micOn)) = micStreamRef micOn
   \<and> micActive (after (stopMicrophone firstStopThrows micOn))
   \<and> micStreamRef (after (stopMicrophone secondStopThrows micOn)) = None
   \<and> micTrackRef (after (stopMicrophone secondStopThrows micOn)) = micTrackRef micOn
   \<and> micActive (after (stopMicrophone secondStopThrows micOn))"
proof -
  have r1: "reachable cameraOn"
    unfolding cameraOn_def
    using reachable_call [OF reachable_initial, of "StartCamera (Inr rearStream)" wallClock]
    by (simp add: rearStream_def)
  have r2: "steadilyReachable cameraOn"
    unfolding cameraOn_def
    using steadilyReachable_call
      [OF steadilyReachable_initial, of "StartCamera (Inr rearStream)" wallClock]
    by (simp add: rearStream_def)
  have r3: "reachable micOn"
    unfolding micOn_def
    using reachable_call [OF reachable_initial, of "StartMicrophone (Inr micStream)" wallClock]
    by simp
  have f1: "cameraActive cameraOn" "streamRef cameraOn = Some rearStream"
    "trackRef cameraOn = Some rearCamera"
    using cells_eq_select [OF startCamera_granted_cells [of rearStream "initialState wallClock"]]
    by (simp_all add: cameraOn_def rearStream_def)
  have "\<not> (cameraActive (initialState wallClock) \<or> truthy (streamRef (initialState wallClock)))"
    by (simp add: initialState_def)
  from cells_eq_select [OF startMicrophone_granted_cells [OF this, of micStream]]
  have f3: "micActive micOn" "micStreamRef micOn = Some micStream"
    "micTrackRef micOn = Some builtinMic"
    by (simp_all add: micOn_def micStream_def)
  have g: "videoReleaseSucceeds allReturn cameraOn"
    "\<not> tracksReleased getVideoTracks (forEachThrows firstStopThrows) (streamRef cameraOn)"
    "tracksReleased getVideoTracks (forEachThrows secondStopThrows) (streamRef cameraOn)"
    "\<not> trackReleased (trackRefThrows secondStopThrows) (trackRef cameraOn)"
    "audioReleaseSucceeds allReturn micOn"
    "\<not> tracksReleased getAudioTracks (forEachThrows firstStopThrows) (micStreamRef micOn)"
    "tracksReleased getAudioTracks (forEachThrows secondStopThrows) (micStreamRef micOn)"
    "\<not> trackReleased (trackRefThrows secondStopThrows) (micTrackRef micOn)"
    using f1 f3
    by (simp_all add: videoReleaseSucceeds_def audioReleaseSucceeds_def allReturn_def
        firstStopThrows_def secondStopThrows_def rearStream_def micStream_def)
  from handles_held_while_active [of cameraOn allReturn]
    handles_held_while_active [of cameraOn firstStopThrows]
    handles_held_while_active [of cameraOn secondStopThrows]
    handles_held_while_active [of micOn allReturn]
    handles_held_while_active [of micOn firstStopThrows]
    handles_held_while_active [of micOn secondStopThrows] r1 r2 r3 f1 f3 g
  show ?thesis by simp
qed

subsection \<open>C3: stop on an inactive session\<close>

text \<open>
  C3, counterexample. After a camera start that the host denied the session is inactive
  and carries the error; \<open>stopCamera\<close> sets \<open>cameraError\<close> to null (line 105), so the
  session state is not what it was.
\<close>

theorem stopCamera_clears_error_of_inactive_session:
  "\<not> cameraActive deniedState
   \<and> cameraError deniedState = Some ''Camera: Permission denied or error occurred - Permission denied''
   \<and> cameraError (after (stopCamera allReturn deniedState)) = None
   \<and> videoSession (after (stopCamera allReturn deniedState)) \<noteq> videoSession deniedState"
  by (simp add: deniedState_def videoSession_def handler_defs example_defs)

text \<open>
  C3, as amended. \<open>stopCamera\<close> and \<open>stopMicrophone\<close> never throw to their caller, in
  any state and whatever the host answers. Called on an inactive session they leave it
  inactive. Called on a session at rest (inactive, no error, no handles, torch off) they
  leave the whole session state unchanged; and a stop whose releases succeed leaves the
  session at rest, so that a second stop changes nothing.
\<close>

theorem stop_of_inactive_session:
  "stopCamera answers s = Returns (after (stopCamera answers s))
   \<and> stopMicrophone answers s = Returns (after (stopMicrophone answers s))
   \<and> (\<not> cameraActive s \<longrightarrow> \<not> cameraActive (after (stopCamera answers s)))
   \<and> (\<not> micActive s \<longrightarrow> \<not> micActive (after (stopMicrophone answers s)))
   \<and> (videoIdle s \<longrightarrow> videoSession (after (stopCamera answers s)) = videoSession s)
   \<and> (audioIdle s \<longrightarrow> audioSession (after (stopMicrophone answers s)) = audioSession s)
   \<and> (videoReleaseSucceeds answers s \<longrightarrow> videoIdle (after (stopCamera answers s)))
   \<and> (audioReleaseSucceeds answers s \<longrightarrow> audioIdle (after (stopMicrophone answers s)))"
proof -
  note v = cells_eq_select [OF stopCamera_cells [of answers s]]
  note a = cells_eq_select [OF stopMicrophone_cells [of answers s]]
  have 1: "\<not> cameraActive s \<longrightarrow> \<not> cameraActive (after (stopCamera answers s))"
    using v(1) by simp
  have 2: "\<not> micActive s \<longrightarrow> \<not> micActive (after (stopMicrophone answers s))"
    using a(8) by simp
  have 3: "videoIdle s \<longrightarrow> videoSession (after (stopCamera answers s)) = videoSession s"
    using v by (simp add: videoIdle_def videoSession_def)
  have 4: "audioIdle s \<longrightarrow> audioSession (after (stopMicrophone answers s)) = audioSession s"
    using a by (simp add: audioIdle_def audioSession_def)
  have 5: "videoReleaseSucceeds answers s \<longrightarrow> videoIdle (after (stopCamera answers s))"
    using v by (simp add: videoIdle_def videoSession_def videoReleaseSucceeds_def)
  have 6: "audioReleaseSucceeds answers s \<longrightarrow> audioIdle (after (stopMicrophone answers s))"
    using a by (simp add: audioIdle_def audioSession_def audioReleaseSucceeds_def)
  from stopCamera_returns [of answers s] stopMicrophone_returns [of answers s] 1 2 3 4 5 6
  show ?thesis by blast
qed

text \<open>
  C3, witness: the initial state under answers that throw, the state after a denied camera
  start, and the camera and the microphone switched on and released.
\<close>

theorem stop_of_inactive_session_witness:
  "videoIdle (initialState wallClock) \<and> audioIdle (initialState wallClock)
   \<and> videoSession (after (stopCamera firstStopThrows (initialState wallClock))) =
       (False, None, None, None, False, False)
   \<and> audioSession (after (stopMicrophone secondStopThrows (initialState wallClock))) =
       (False, None, False, None, None)
   \<and> \<not> cameraActive deniedState \<and> \<not> cameraActive (after (stopCamera allReturn deniedState))
   \<and> videoReleaseSucceeds allReturn cameraOn \<and> videoIdle (after (stopCamera allReturn cameraOn))
   \<and> audioReleaseSucceeds allReturn micOn \<and> audioIdle (after (stopMicrophone allReturn micOn))
   \<and> \<not> micActive deniedState \<and> \<not> micActive (after (stopMicrophone allReturn deniedState))"
proof -
  have i: "videoIdle (initialState wallClock)" "audioIdle (initialState wallClock)"
    "videoSession (initialState wallClock) = (False, None, None, None, False, False)"
    "audioSession (initialState wallClock) = (False, None, False, None, None)"
    by (simp_all add: videoIdle_def audioIdle_def videoSession_def audioSession_def
        initialState_def)
  have d: "\<not> cameraActive deniedState" "\<not> micActive deniedState"
    using cells_eq_select [OF startCamera_rejected_cells [of notAllowed "initialState wallClock"]]
    by (simp_all add: deniedState_def initialState_def)
  have c: "videoReleaseSucceeds allReturn cameraOn"
    by (simp add: videoReleaseSucceeds_def allReturn_def tracksReleased_quiet
        trackReleased_quiet)
  have m: "audioReleaseSucceeds allReturn micOn"
    by (simp add: audioReleaseSucceeds_def allReturn_def tracksReleased_quiet
        trackReleased_quiet)
  from stop_of_inactive_session [of firstStopThrows "initialState wallClock"]
    stop_of_inactive_session [of secondStopThrows "initialState wallClock"]
    stop_of_inactive_session [of allReturn deniedState]
    stop_of_inactive_session [of allReturn cameraOn]
    stop_of_inactive_session [of allReturn micOn] i d c m
  show ?thesis by simp
qed

subsection \<open>C4: the active flag after a sequence of calls\<close>

text \<open>
  C4, counterexample. The camera is started and then stopped, and the first \<open>stop()\<close> of
  the stop throws: the most recent start succeeded and a stop occurred after it, yet
  \<open>cameraActive\<close> is still true, since the throw skips line 104.
\<close>

theorem active_after_throwing_stop:
  "cameraActive
     (run (map videoCall [Start (Inr rearStream), Stop firstStopThrows]) (initialState wallClock))
   \<and> \<not> activeBySpec [Start (Inr rearStream), Stop firstStopThrows]"
  by (simp add: activeBySpec_def lastStart_def callsSinceLastStart_def handler_defs example_defs)

text \<open>
  C4, as amended. For every finite sequence of start and stop calls on the video session,
  made from the initial state and in which no call of \<open>stop()\<close> throws, \<open>cameraActive\<close> is
  true after the sequence if and only if the most recent start succeeded and no stop
  occurred after it. The same holds of \<open>micActive\<close> for sequences of calls on the audio
  session, when every granted stream also carries an audio track.
\<close>

theorem active_after_calls:
  "(list_all stopsReturn cs \<longrightarrow>
      cameraActive (run (map videoCall cs) (initialState clk)) = activeBySpec cs)
   \<and> (list_all stopsReturn cs \<and> list_all (grantHasTrack getAudioTracks) cs \<longrightarrow>
      micActive (run (map audioCall cs) (initialState clk)) = activeBySpec cs)"
proof (cases cs rule: rev_cases)
  case Nil
  then show ?thesis
    by (simp add: initialState_def activeBySpec_def lastStart_def)
next
  case (snoc cs' c)
  have a0: "audioUnhindered (initialState clk)"
    by (simp add: audioUnhindered_def initialState_def)
  have video: "cameraActive (run (map videoCall cs) (initialState clk)) = activeBySpec cs"
    if "list_all stopsReturn cs"
  proof -
    from that snoc have "stopsReturn c" by simp
    then show ?thesis
      by (simp add: snoc run_snoc activeBySpec_snoc videoCall_active)
  qed
  have audio: "micActive (run (map audioCall cs) (initialState clk)) = activeBySpec cs"
    if "list_all stopsReturn cs" "list_all (grantHasTrack getAudioTracks) cs"
  proof -
    from that snoc have "stopsReturn c" and "grantHasTrack getAudioTracks c" by simp_all
    with audioCalls_unhindered [OF a0, of cs'] show ?thesis
      by (simp add: snoc run_snoc activeBySpec_snoc audioCall_active)
  qed
  from video audio show ?thesis by blast
qed

text \<open>
C4, witness: two sequences on the video session and one on the audio session.
\<close>

theorem active_after_calls_witness:
  "list_all stopsReturn
     [Start (Inr rearStream), Stop allReturn, Start (Inl notAllowed), Start (Inr torchStream)]
   \<and> cameraActive
       (run (map videoCall
               [Start (Inr rearStream), Stop allReturn, Start (Inl notAllowed),
                Start (Inr torchStream)])
          (initialState wallClock))
   \<and> list_all stopsReturn [Start (Inr rearStream), Stop allReturn]
   \<and> \<not> cameraActive
         (run (map videoCall [Start (Inr rearStream), Stop allReturn]) (initialState wallClock))
   \<and> list_all stopsReturn [Start (Inr micStream)]
   \<and> list_all (grantHasTrack getAudioTracks) [Start (Inr micStream)]
   \<and> micActive (run (map audioCall [Start (Inr micStream)]) (initialState wallClock))"
proof -
  have h1: "list_all stopsReturn
     [Start (Inr rearStream), Stop allReturn, Start (Inl notAllowed), Start (Inr torchStream)]"
    and h2: "list_all stopsReturn [Start (Inr rearStream), Stop allReturn]"
    and h3: "list_all stopsReturn [Start (Inr micStream)]"
    and h4: "list_all (grantHasTrack getAudioTracks) [Start (Inr micStream)]"
    by (simp_all add: example_defs)
  have s1: "activeBySpec
     [Start (Inr rearStream), Stop allReturn, Start (Inl notAllowed), Start (Inr torchStream)]"
    and s2: "\<not> activeBySpec [Start (Inr rearStream), Stop allReturn]"
    and s3: "activeBySpec [Start (Inr micStream)]"
    by (simp_all add: activeBySpec_def lastStart_def callsSinceLastStart_def)
  from active_after_calls
         [of "[Start (Inr rearStream), Stop allReturn, Start (Inl notAllowed),
               Start (Inr torchStream)]" wallClock]
       active_after_calls [of "[Start (Inr rearStream), Stop allReturn]" wallClock]
       active_after_calls [of "[Start (Inr micStream)]" wallClock]
       h1 h2 h3 h4 s1 s2 s3
  show ?thesis by simp
qed

subsection \<open>C5: a camera start that fails at the host\<close>

text \<open>
  C5. When the host rejects the request of \<open>startCamera\<close> with \<open>e\<close>, the handler
  returns with \<open>cameraActive\<close> false and \<open>cameraError\<close> set to the text
  \<open>Camera: Permission denied or error occurred - \<close> followed by the reason the host gave:
  \<open>e.message\<close>, or \<open>e.name\<close> when the message is empty. The log gains the request
  entry and the entry of the failure handler, which carries the same text: exactly one of
  the entries added has severity error.
\<close>

theorem startCamera_host_failure:
  "startCamera (Inl e) s = Returns (after (startCamera (Inl e) s))
   \<and> cameraActive (after (startCamera (Inl e) s)) = False
   \<and> cameraError (after (startCamera (Inl e) s)) =
       Some (''Camera: Permission denied or error occurred - '' @
             (if errorMessage e = [] then errorName e else errorMessage e))
   \<and> logs (after (startCamera (Inl e) s)) =
       logs s @
       [\<lparr> message = ''['' @ clock s 0 @ ''] Camera: Requesting permission...'',
           logType = Info \<rparr>,
        \<lparr> message = ''['' @ clock s 1 @ ''] Camera: Permission denied or error occurred - '' @
                      (if errorMessage e = [] then errorName e else errorMessage e),
           logType = Error \<rparr>]
   \<and> length (filter (\<lambda>entry. logType entry = Error)
               (drop (length (logs s)) (logs (after (startCamera (Inl e) s))))) = 1"
  by (simp add: startCamera_def startCamera_try_def startCamera_catch_def addLog_def
      reason_def Let_def)

text \<open>
  C5, witness: a denial with a message, on the page as first rendered and with the camera
  on, and a failure that has only a name.
\<close>

theorem startCamera_host_failure_witness:
  "cameraActive cameraOn
   \<and> cameraActive (after (startCamera (Inl notAllowed) cameraOn)) = False
   \<and> cameraError (after (startCamera (Inl notAllowed) (initialState wallClock))) =
       Some ''Camera: Permission denied or error occurred - Permission denied''
   \<and> logs (after (startCamera (Inl notAllowed) (initialState wallClock))) =
       [\<lparr> message = ''[10:15:00 AM] Camera: Requesting permission...'', logType = Info \<rparr>,
        \<lparr> message =
            ''[10:15:00 AM] Camera: Permission denied or error occurred - Permission denied'',
          logType = Error \<rparr>]
   \<and> cameraError (after (startCamera (Inl busy) (initialState wallClock))) =
       Some ''Camera: Permission denied or error occurred - InvalidStateError''"
proof -
  have on: "cameraActive cameraOn"
    using cells_eq_select [OF startCamera_granted_cells [of rearStream "initialState wallClock"]]
    by (simp add: cameraOn_def)
  from startCamera_host_failure [of notAllowed cameraOn]
    startCamera_host_failure [of notAllowed "initialState wallClock"]
    startCamera_host_failure [of busy "initialState wallClock"] on
  show ?thesis
    by (simp add: notAllowed_def busy_def initialState_def wallClock_def)
qed

subsection \<open>C6: the torch invariant\<close>




subsection \<open>C7: toggling an unsupported torch\<close>

text \<open>
  C7. In every state with \<open>torchSupported\<close> false, \<open>toggleTorch\<close> returns with every cell
  unchanged, \<open>torchEnabled\<close> among them, makes no host call, and appends exactly one entry,
  \<open>Camera: Torch not available\<close> of severity error. In particular, when the camera is
  started from a state with the torch unsupported and off, on a stream whose first video
  track reports capabilities without the key \<open>torch\<close>, the session becomes active,
  \<open>torchSupported\<close> stays false, and a toggle then logs that entry and leaves
  \<open>torchEnabled\<close> false.
\<close>

theorem toggleTorch_unsupported:
  "(\<not> torchSupported s \<longrightarrow>
      toggleTorch s = Returns (after (toggleTorch s))
      \<and> cells (after (toggleTorch s)) = cells s
      \<and> torchEnabled (after (toggleTorch s)) = torchEnabled s
      \<and> hostCalls (after (toggleTorch s)) = hostCalls s
      \<and> logs (after (toggleTorch s)) =
          logs s @ [\<lparr> message = ''['' @ clock s 0 @ ''] Camera: Torch not available'',
                       logType = Error \<rparr>])
   \<and> (\<not> torchSupported s \<and> \<not> torchEnabled s \<and> first (getVideoTracks st) = Some t
        \<and> getCapabilities t = Some (Some c) \<and> torch c = None \<longrightarrow>
      cameraActive (after (startCamera (Inr st) s))
      \<and> \<not> torchSupported (after (startCamera (Inr st) s))
      \<and> logs (after (toggleTorch (after (startCamera (Inr st) s)))) =
          logs (after (startCamera (Inr st) s)) @
          [\<lparr> message = ''['' @ clock (after (startCamera (Inr st) s)) 0 @
                         ''] Camera: Torch not available'',
              logType = Error \<rparr>]
      \<and> \<not> torchEnabled (after (toggleTorch (after (startCamera (Inr st) s)))))"
proof -
  have rejected: "toggleTorch s' = Returns (addLog ''Camera: Torch not available'' Error s')"
    if "\<not> torchSupported s'" for s'
    using that by (simp add: toggleTorch_def toggleTorch_try_def split: option.splits)
  have started: "cameraActive (after (startCamera (Inr st) s))
      \<and> \<not> torchSupported (after (startCamera (Inr st) s))
      \<and> \<not> torchEnabled (after (startCamera (Inr st) s))"
    if "\<not> torchSupported s" "\<not> torchEnabled s" "first (getVideoTracks st) = Some t"
       "getCapabilities t = Some (Some c)" "torch c = None"
    using that cells_eq_select [OF startCamera_granted_cells [of st s]]
    by simp
  show ?thesis
  proof (intro conjI impI)
    assume "\<not> torchSupported s"
    from rejected [OF this]
    show "toggleTorch s = Returns (after (toggleTorch s))"
      and "cells (after (toggleTorch s)) = cells s"
      and "torchEnabled (after (toggleTorch s)) = torchEnabled s"
      and "hostCalls (after (toggleTorch s)) = hostCalls s"
      and "logs (after (toggleTorch s)) =
          logs s @ [\<lparr> message = ''['' @ clock s 0 @ ''] Camera: Torch not available'',
                       logType = Error \<rparr>]"
      by (simp_all add: addLog_def)
  next
    assume h: "\<not> torchSupported s \<and> \<not> torchEnabled s \<and> first (getVideoTracks st) = Some t
        \<and> getCapabilities t = Some (Some c) \<and> torch c = None"
    let ?s1 = "after (startCamera (Inr st) s)"
    from h started have s1: "cameraActive ?s1" "\<not> torchSupported ?s1" "\<not> torchEnabled ?s1"
      by simp_all
    show "cameraActive ?s1" by (rule s1)
    show "\<not> torchSupported ?s1" by (rule s1)
    from rejected [OF s1(2)] s1(3)
    show "logs (after (toggleTorch ?s1)) =
          logs ?s1 @ [\<lparr> message = ''['' @ clock ?s1 0 @ ''] Camera: Torch not available'',
                        logType = Error \<rparr>]"
      and "\<not> torchEnabled (after (toggleTorch ?s1))"
      by (simp_all add: addLog_def)
  qed
qed

text \<open>
C7, witness: the initial state, and the rear camera, which reports no torch.
\<close>

theorem toggleTorch_unsupported_witness:
  "\<not> torchSupported (initialState wallClock)
   \<and> torchEnabled (after (toggleTorch (initialState wallClock))) = False
   \<and> hostCalls (after (toggleTorch (initialState wallClock))) = []
   \<and> logs (after (toggleTorch (initialState wallClock))) =
       [\<lparr> message = ''[10:15:00 AM] Camera: Torch not available'', logType = Error \<rparr>]
   \<and> cameraActive cameraOn \<and> \<not> torchSupported cameraOn
   \<and> \<not> torchEnabled (after (toggleTorch cameraOn))"
proof -
  have a: "\<not> torchSupported (initialState wallClock)" "\<not> torchEnabled (initialState wallClock)"
    "torchEnabled (initialState wallClock) = False"
    "hostCalls (initialState wallClock) = []" "logs (initialState wallClock) = []"
    "clock (initialState wallClock) 0 = ''10:15:00 AM''"
    by (simp_all add: initialState_def wallClock_def)
  have b: "first (getVideoTracks rearStream) = Some rearCamera"
    "getCapabilities rearCamera = Some (Some \<lparr> torch = None \<rparr>)"
    "torch \<lparr> torch = None \<rparr> = None"
    by (simp_all add: rearStream_def rearCamera_def)
  from toggleTorch_unsupported [of "initialState wallClock" rearStream rearCamera "\<lparr> torch = None \<rparr>"]
    a b
  show ?thesis by (simp add: cameraOn_def)
qed

subsection \<open>C8: toggling a supported torch\<close>

text \<open>
  C8. In every reachable state with the session active and the torch supported, the
  session holds a track and \<open>toggleTorch\<close> asks the host, once, for the opposite of
  \<open>torchEnabled\<close> on that track. When the host accepts, \<open>torchEnabled\<close> takes that
  opposite value, nothing else changes in the cells, and the change is logged. When the
  host rejects with \<open>e\<close>, every cell is unchanged and one entry of severity error, with
  the reason, is logged.
\<close>

theorem toggleTorch_supported:
  assumes "reachable s" and "cameraActive s" and "torchSupported s"
  shows "\<exists>t. trackRef s = Some t
       \<and> toggleTorch s = Returns (after (toggleTorch s))
       \<and> hostCalls (after (toggleTorch s)) =
           hostCalls s @ [CallApplyConstraints t (\<not> torchEnabled s)]
       \<and> (applyConstraints t (\<not> torchEnabled s) = None \<longrightarrow>
            cells (after (toggleTorch s)) = (cells s) \<lparr> torchEnabled := \<not> torchEnabled s \<rparr>
            \<and> torchEnabled (after (toggleTorch s)) = (\<not> torchEnabled s)
            \<and> logs (after (toggleTorch s)) =
                logs s @ [\<lparr> message = ''['' @ clock s 0 @ ''] Camera: Torch '' @
                                        (if \<not> torchEnabled s then ''enabled'' else ''disabled''),
                             logType = Success \<rparr>])
       \<and> (\<forall>e. applyConstraints t (\<not> torchEnabled s) = Some e \<longrightarrow>
            cells (after (toggleTorch s)) = cells s
            \<and> torchEnabled (after (toggleTorch s)) = torchEnabled s
            \<and> torchSupported (after (toggleTorch s)) = torchSupported s
            \<and> logs (after (toggleTorch s)) =
                logs s @ [\<lparr> message = ''['' @ clock s 0 @ ''] Camera: Torch toggle error - '' @
                                        reason e,
                             logType = Error \<rparr>])"
proof -
  from assms(1) have "videoHandles s"
    by (simp add: reachable_handles)
  with assms(2) obtain t where t: "trackRef s = Some t"
    by (cases "trackRef s") (auto simp add: videoHandles_def split: option.splits)
  show ?thesis
  proof (cases "applyConstraints t (\<not> torchEnabled s)")
    case None
    with t assms(3) show ?thesis
      by (simp add: toggleTorch_def toggleTorch_try_def addLog_def Let_def)
  next
    case (Some e)
    with t assms(3) show ?thesis
      by (simp add: toggleTorch_def toggleTorch_try_def toggleTorch_catch_def addLog_def Let_def)
  qed
qed

text \<open>
  C8, witness: on the camera whose torch can be switched on but not off, the first toggle
  is accepted and the second is rejected.
\<close>

theorem toggleTorch_supported_witness:
  "reachable torchReady \<and> cameraActive torchReady \<and> torchSupported torchReady
   \<and> \<not> torchEnabled torchReady \<and> torchEnabled torchOn
   \<and> reachable torchOn \<and> cameraActive torchOn \<and> torchSupported torchOn
   \<and> torchEnabled (after (toggleTorch torchOn))
   \<and> last (logs (after (toggleTorch torchOn))) =
       \<lparr> message = ''[10:15:00 AM] Camera: Torch toggle error - InvalidStateError'',
         logType = Error \<rparr>"
proof -
  have r1: "reachable torchReady"
    unfolding torchReady_def
    using reachable_call [OF reachable_initial, of "StartCamera (Inr torchStream)" wallClock]
    by (simp add: torchStream_def)
  have r2: "reachable torchOn"
    unfolding torchOn_def
    using reachable_call [OF r1, of ToggleTorch] by simp
  have f1: "cameraActive torchReady" "torchSupported torchReady" "\<not> torchEnabled torchReady"
    "trackRef torchReady = Some torchCamera"
    using cells_eq_select [OF startCamera_granted_cells [of torchStream "initialState wallClock"]]
    by (simp_all add: torchReady_def initialState_def torchStream_def torchCamera_def)
  from toggleTorch_supported [OF r1 f1(1) f1(2)] f1
  have on: "torchEnabled torchOn" "cells torchOn = (cells torchReady) \<lparr> torchEnabled := True \<rparr>"
    by (simp_all add: torchOn_def torchCamera_def)
  from cells_eq_select [OF on(2)] f1
  have f2: "cameraActive torchOn" "torchSupported torchOn" "trackRef torchOn = Some torchCamera"
    by simp_all
  have clk: "clock torchOn 0 = ''10:15:00 AM''"
    by (simp add: torchOn_def torchReady_def handler_defs example_defs)
  from toggleTorch_supported [OF r2 f2(1) f2(2)] f2 on(1) clk
  have "torchEnabled (after (toggleTorch torchOn))"
    "last (logs (after (toggleTorch torchOn))) =
       \<lparr> message = ''[10:15:00 AM] Camera: Torch toggle error - InvalidStateError'',
         logType = Error \<rparr>"
    by (simp_all add: torchCamera_def busy_def reason_def)
  with r1 r2 f1 f2 on show ?thesis by simp
qed

subsection \<open>C9: clearing the log\<close>

text \<open>
  C9. Whatever the log holds, after \<open>clearLogs\<close> it holds exactly one entry: the
  \<open>Logs cleared\<close> entry of severity info, stamped with the time read during the call.
  None of the earlier entries is left.
\<close>

theorem clearLogs_single_entry:
  "clearLogs s = Returns (s \<lparr> logs := [\<lparr> message = ''['' @ clock s 0 @ ''] Logs cleared'',
                                         logType = Info \<rparr>],
                              clock := (\<lambda>n. clock s (Suc n)) \<rparr>)
   \<and> length (logs (after (clearLogs s))) = 1"
  by (simp add: clearLogs_def addLog_def)

subsection \<open>C10: what the refusal leaves alone\<close>

text \<open>
  C10. When \<open>startMicrophone\<close> refuses because the video session is active or still holds
  a stream, the only cell that changes is \<open>micError\<close>: \<open>micActive\<close>, \<open>micRecording\<close>,
  \<open>micStreamRef\<close> and \<open>micTrackRef\<close> are as before, and so is every cell of the video
  session. Beside that cell only the log (with the clock read for its entries) changes; no
  host call is made.
\<close>

theorem startMicrophone_refusal_frame:
  assumes "cameraActive s \<or> streamRef s \<noteq> None"
  shows "cells (after (startMicrophone granted s)) =
           (cells s) \<lparr> micError := Some ''Camera must be stopped first'' \<rparr>
       \<and> hostCalls (after (startMicrophone granted s)) = hostCalls s
       \<and> micActive (after (startMicrophone granted s)) = micActive s
       \<and> micRecording (after (startMicrophone granted s)) = micRecording s
       \<and> micStreamRef (after (startMicrophone granted s)) = micStreamRef s
       \<and> micTrackRef (after (startMicrophone granted s)) = micTrackRef s"
proof -
  from assms have "cameraActive s \<or> truthy (streamRef s)"
    by (simp add: truthy_iff)
  then show ?thesis
    by (simp add: startMicrophone_def startMicrophone_try_def Let_def)
qed

text \<open>
C10, witness: the camera holds a stream and the microphone is started.
\<close>

theorem startMicrophone_refusal_frame_witness:
  "streamRef cameraOn \<noteq> None
   \<and> micActive (after (startMicrophone (Inl notAllowed) cameraOn)) = False
   \<and> micRecording (after (startMicrophone (Inl notAllowed) cameraOn)) = False
   \<and> micStreamRef (after (startMicrophone (Inl notAllowed) cameraOn)) = None
   \<and> micTrackRef (after (startMicrophone (Inl notAllowed) cameraOn)) = None
   \<and> hostCalls (after (startMicrophone (Inl notAllowed) cameraOn)) = hostCalls cameraOn"
proof -
  have f: "streamRef cameraOn = Some rearStream" "micActive cameraOn = False"
    "micRecording cameraOn = False" "micStreamRef cameraOn = None" "micTrackRef cameraOn = None"
    using cells_eq_select [OF startCamera_granted_cells [of rearStream "initialState wallClock"]]
    by (simp_all add: cameraOn_def initialState_def)
  then have "cameraActive cameraOn \<or> streamRef cameraOn \<noteq> None" by simp
  from startMicrophone_refusal_frame [OF this, of "Inl notAllowed"] f
  show ?thesis by simp
qed

end
